theory Spec2Isabelle
  imports Complex_Main
begin

section \<open>Electricity billing: readings, statistics, invoices\<close>

text \<open>
  A shallow embedding of the metering and invoicing code of the repository:
  \<^item> \<^verbatim>\<open>app/models/models.py\<close>: the tables, as records and lists of rows;
  \<^item> \<^verbatim>\<open>app/services/calculation_service.py\<close>: invoice amounts and statistics;
  \<^item> \<^verbatim>\<open>app/services/invoice_service.py\<close>, \<^verbatim>\<open>email_service.py\<close>: numbering, creation,
    document generation, sending;
  \<^item> \<^verbatim>\<open>app/schemas/csv_service.py\<close>: validation and import of CSV files;
  \<^item> \<^verbatim>\<open>app/routers/meritve.py\<close>, \<^verbatim>\<open>racuni.py\<close>, \<^verbatim>\<open>admin.py\<close>: the endpoints.

  Conventions.
  \<^item> A timestamp is an integer number of seconds; a \<^verbatim>\<open>date\<close> compared with a timestamp
    column is the instant of its midnight, so dates are timestamps too.
  \<^item> A \<^verbatim>\<open>Decimal\<close> is a signed coefficient and a number of decimal places. Only finite
    values are modelled, and arithmetic is exact: the context precision of 28 digits is
    not reached by values of the column types \<^verbatim>\<open>DECIMAL(10, 4)\<close> and \<^verbatim>\<open>DECIMAL(8, 5)\<close>.
  \<^item> The session is explicit state passing: an operation takes the committed database
    and returns its result with the database after commit; after a rollback the
    database is the one it was given.
  \<^item> An exception is a value \<open>Inl e\<close>. Messages are written in ASCII.
  \<^item> The storage layer is the one \<^verbatim>\<open>models.py\<close> declares: a \<^verbatim>\<open>DECIMAL(p, s)\<close> column rounds
    a value to \<open>s\<close> places and refuses it beyond \<open>p\<close> digits; \<^verbatim>\<open>stevilka_racuna\<close> is unique;
    \<^verbatim>\<open>casovni_zig\<close> is not null; a row that a line item refers to (an invoice, a reading)
    cannot be deleted, there being no delete cascade and the referring columns being
    \<^verbatim>\<open>nullable=False\<close>. A refused statement raises, and the transaction is rolled back. (A
    rolled-back insert may use up values of an id sequence; the model keeps them.)
\<close>

subsection \<open>Decimal\<close>

type_synonym timestamp = int

datatype decimal = Decimal (coefficient: int) (places: nat)

text \<open>The rational number a decimal denotes.\<close>

definition dec_val :: "decimal \<Rightarrow> rat" where
  "dec_val d = of_int (coefficient d) / 10 ^ places d"

text \<open>\<^verbatim>\<open>a * b\<close>: coefficients multiply, exponents add.\<close>

fun dec_mul :: "decimal \<Rightarrow> decimal \<Rightarrow> decimal" where
  "dec_mul (Decimal a p) (Decimal b q) = Decimal (a * b) (p + q)"

text \<open>\<^verbatim>\<open>a + b\<close>: both operands are brought to the larger number of places.\<close>

fun dec_add :: "decimal \<Rightarrow> decimal \<Rightarrow> decimal" where
  "dec_add (Decimal a p) (Decimal b q) =
     Decimal (a * 10 ^ (max p q - p) + b * 10 ^ (max p q - q)) (max p q)"

text \<open>
  Division of \<open>a\<close> by a positive \<open>m\<close>, rounded to the nearest integer, ties to the even
  one: \<^verbatim>\<open>ROUND_HALF_EVEN\<close>, the rounding of the default context.
\<close>

definition round_half_even :: "int \<Rightarrow> int \<Rightarrow> int" where
  "round_half_even a m =
     (let q = a div m; r = a mod m
      in if 2 * r < m then q
         else if m < 2 * r then q + 1
         else if even q then q else q + 1)"

text \<open>
  \<^verbatim>\<open>d.quantize(e)\<close>: the value of \<open>d\<close> with the exponent of \<open>e\<close>, rounded half-even when
  places are dropped.
\<close>

fun quantize :: "decimal \<Rightarrow> decimal \<Rightarrow> decimal" where
  "quantize (Decimal c p) e =
     (let k = places e
      in if p \<le> k then Decimal (c * 10 ^ (k - p)) k
         else Decimal (round_half_even c (10 ^ (p - k))) k)"

text \<open>Comparisons with \<^verbatim>\<open>0\<close>, the only ones the code makes on decimals of a reading.\<close>

definition dec_lt0 :: "decimal \<Rightarrow> bool" where
  "dec_lt0 d = (coefficient d < 0)"

definition dec_le0 :: "decimal \<Rightarrow> bool" where
  "dec_le0 d = (coefficient d \<le> 0)"

text \<open>\<^verbatim>\<open>a <= b\<close> on decimals, for \<^verbatim>\<open>min\<close> and \<^verbatim>\<open>max\<close>.\<close>

fun dec_le :: "decimal \<Rightarrow> decimal \<Rightarrow> bool" where
  "dec_le (Decimal a p) (Decimal b q) =
     (a * 10 ^ (max p q - p) \<le> b * 10 ^ (max p q - q))"

text \<open>
  The spec's rounding, on exact rationals: \<open>spec_round k x\<close> is \<open>x\<close> rounded to \<open>k\<close>
  decimals, half to even. It follows the spec's words, not the code.
\<close>

definition spec_round_half_even :: "rat \<Rightarrow> int" where
  "spec_round_half_even x =
     (let f = \<lfloor>x\<rfloor>; d = x - of_int f
      in if d < 1 / 2 then f
         else if 1 / 2 < d then f + 1
         else if even f then f else f + 1)"

definition spec_round :: "nat \<Rightarrow> rat \<Rightarrow> rat" where
  "spec_round k x = of_int (spec_round_half_even (x * 10 ^ k)) / 10 ^ k"

subsection \<open>The tables (models.py)\<close>

record meritev =
  m_id :: int
  m_lokacija_id :: int
  m_casovni_zig :: timestamp
  m_poraba_kwh :: decimal
  m_dinamicna_cena_eur_kwh :: decimal
  m_created_at :: timestamp

record racun =
  r_id :: int
  r_lokacija_id :: int
  r_stevilka_racuna :: string
  r_datum_od :: timestamp
  r_datum_do :: timestamp
  r_skupni_znesek :: decimal
  r_status :: string
  r_datum_izdaje :: timestamp
  r_pdf_pot :: "string option"

record postavka_racuna =
  p_id :: int
  p_racun_id :: int
  p_meritev_id :: int
  p_poraba_kwh :: decimal
  p_cena_eur_kwh :: decimal
  p_znesek :: decimal

text \<open>
  The database: the ids of the rows of \<^verbatim>\<open>lokacije\<close>, the rows of the other three tables
  in insertion order, and the next value of each id sequence.
\<close>

record db =
  lokacije :: "int list"
  meritve :: "meritev list"
  racuni :: "racun list"
  postavke :: "postavka_racuna list"
  meritev_seq :: int
  racun_seq :: int
  postavka_seq :: int

text \<open>
  The exceptions. \<open>ExternalError\<close> stands for whatever the template engine, the PDF
  writer or the SMTP client raise.
\<close>

datatype error =
  HTTPException nat string
  | ValueError string
  | AttributeError
  | IntegrityError
  | DataError
  | NameError string
  | ExternalError

text \<open>
  A column \<^verbatim>\<open>DECIMAL(precision, scale)\<close>: the value is rounded to \<open>scale\<close> places, ties away
  from zero, and refused (\<^verbatim>\<open>DataError\<close>, numeric field overflow) when the rounded value
  has more than \<open>precision\<close> digits. A value read back has \<open>scale\<close> places.
\<close>

definition round_half_away :: "int \<Rightarrow> int \<Rightarrow> int" where
  "round_half_away a m =
     (if 0 \<le> a then (2 * a + m) div (2 * m) else - ((2 * (- a) + m) div (2 * m)))"

definition store_decimal :: "nat \<Rightarrow> nat \<Rightarrow> decimal \<Rightarrow> decimal option" where
  "store_decimal precision scale x =
     (let c = (if places x \<le> scale then coefficient x * 10 ^ (scale - places x)
               else round_half_away (coefficient x) (10 ^ (places x - scale)))
      in if \<bar>c\<bar> < 10 ^ precision then Some (Decimal c scale) else None)"

subsection \<open>CalculationService\<close>

text \<open>
  The query both functions of the service make: the readings of the location with
  \<^verbatim>\<open>casovni_zig >= datum_od\<close> and \<^verbatim>\<open>casovni_zig <= datum_do\<close>.
\<close>

definition query_meritve :: "db \<Rightarrow> int \<Rightarrow> timestamp \<Rightarrow> timestamp \<Rightarrow> meritev list" where
  "query_meritve d lokacija_id datum_od datum_do =
     filter (\<lambda>m. m_lokacija_id m = lokacija_id
                 \<and> datum_od \<le> m_casovni_zig m \<and> m_casovni_zig m \<le> datum_do)
       (meritve d)"

record line_item =
  li_meritev_id :: int
  li_casovni_zig :: timestamp
  li_poraba_kwh :: decimal
  li_cena_eur_kwh :: decimal
  li_znesek :: decimal

text \<open>The body of the loop \<^verbatim>\<open>for meritev in meritve\<close> of \<^verbatim>\<open>calculate_invoice_amount\<close>.\<close>

fun invoice_loop ::
  "meritev list \<Rightarrow> line_item list \<Rightarrow> decimal \<Rightarrow> decimal \<times> line_item list" where
  "invoice_loop [] line_items total_amount = (total_amount, line_items)"
| "invoice_loop (m # rest) line_items total_amount =
     (let znesek = quantize (dec_mul (m_poraba_kwh m) (m_dinamicna_cena_eur_kwh m))
                     (Decimal 1 2);
          item = \<lparr>li_meritev_id = m_id m, li_casovni_zig = m_casovni_zig m,
                  li_poraba_kwh = m_poraba_kwh m,
                  li_cena_eur_kwh = m_dinamicna_cena_eur_kwh m, li_znesek = znesek\<rparr>
      in invoice_loop rest (line_items @ [item]) (dec_add total_amount znesek))"

text \<open>
  \<^verbatim>\<open>calculate_invoice_amount\<close>. \<^verbatim>\<open>order_by(Meritev.casovni_zig)\<close> is a stable sort of the
  rows by timestamp; \<^verbatim>\<open>Decimal('0.0')\<close> is \<open>Decimal 0 1\<close> and \<^verbatim>\<open>Decimal('0.01')\<close> is
  \<open>Decimal 1 2\<close>.
\<close>

definition calculate_invoice_amount ::
  "db \<Rightarrow> int \<Rightarrow> timestamp \<Rightarrow> timestamp \<Rightarrow> decimal \<times> line_item list" where
  "calculate_invoice_amount d lokacija_id datum_od datum_do =
     (let ms = sort_key m_casovni_zig (query_meritve d lokacija_id datum_od datum_do)
      in if ms = [] then (Decimal 0 1, [])
         else (case invoice_loop ms [] (Decimal 0 1) of
                 (total_amount, line_items) \<Rightarrow>
                   (quantize total_amount (Decimal 1 2), line_items)))"


record statistics =
  skupna_poraba :: decimal
  skupni_strosek :: decimal
  povprecna_cena :: decimal
  minimalna_cena :: decimal
  maksimalna_cena :: decimal
  st_meritev :: nat

text \<open>\<^verbatim>\<open>sum(...)\<close> starts from the integer \<^verbatim>\<open>0\<close>, which is \<open>Decimal 0 0\<close>.\<close>

definition dec_sum :: "decimal list \<Rightarrow> decimal" where
  "dec_sum xs = foldl dec_add (Decimal 0 0) xs"

text \<open>
  \<^verbatim>\<open>min\<close> and \<^verbatim>\<open>max\<close> keep the first of several smallest (largest) elements: the
  current one is replaced only by a strictly smaller (larger) one.
\<close>

fun dec_min :: "decimal \<Rightarrow> decimal list \<Rightarrow> decimal" where
  "dec_min cur [] = cur"
| "dec_min cur (x # xs) = dec_min (if \<not> dec_le cur x then x else cur) xs"

fun dec_max :: "decimal \<Rightarrow> decimal list \<Rightarrow> decimal" where
  "dec_max cur [] = cur"
| "dec_max cur (x # xs) = dec_max (if \<not> dec_le x cur then x else cur) xs"

text \<open>
  \<^verbatim>\<open>(s / n).quantize(e)\<close> for a positive integer \<open>n\<close>, as one rounding of the exact
  quotient. (The context rounds the quotient to 28 significant digits first; the two
  roundings can differ from the single one only for a quotient that close to a tie.)
\<close>

definition dec_div_quantize :: "decimal \<Rightarrow> nat \<Rightarrow> decimal \<Rightarrow> decimal" where
  "dec_div_quantize s n e =
     (let k = places e; p = places s
      in if p \<le> k then Decimal (round_half_even (coefficient s * 10 ^ (k - p)) (int n)) k
         else Decimal (round_half_even (coefficient s) (int n * 10 ^ (p - k))) k)"

definition calculate_statistics :: "db \<Rightarrow> int \<Rightarrow> timestamp \<Rightarrow> timestamp \<Rightarrow> statistics" where
  "calculate_statistics d lokacija_id datum_od datum_do =
     (let ms = query_meritve d lokacija_id datum_od datum_do
      in if ms = [] then
           \<lparr>skupna_poraba = Decimal 0 1, skupni_strosek = Decimal 0 1,
            povprecna_cena = Decimal 0 1, minimalna_cena = Decimal 0 1,
            maksimalna_cena = Decimal 0 1, st_meritev = 0\<rparr>
         else
           (let poraba = dec_sum (map m_poraba_kwh ms);
                strosek = dec_sum (map (\<lambda>m. dec_mul (m_poraba_kwh m)
                                              (m_dinamicna_cena_eur_kwh m)) ms);
                cene = map m_dinamicna_cena_eur_kwh ms
            in \<lparr>skupna_poraba = quantize poraba (Decimal 1 4),
                skupni_strosek = quantize strosek (Decimal 1 2),
                povprecna_cena =
                  (if cene \<noteq> [] then dec_div_quantize (dec_sum cene) (length cene) (Decimal 1 5)
                   else Decimal 0 1),
                minimalna_cena =
                  (case cene of [] \<Rightarrow> Decimal 0 1
                   | c # cs \<Rightarrow> quantize (dec_min c cs) (Decimal 1 5)),
                maksimalna_cena =
                  (case cene of [] \<Rightarrow> Decimal 0 1
                   | c # cs \<Rightarrow> quantize (dec_max c cs) (Decimal 1 5)),
                st_meritev = length ms\<rparr>))"

subsection \<open>InvoiceService\<close>

text \<open>\<^verbatim>\<open>str(n)\<close> of a natural number, and the format \<^verbatim>\<open>{n:06d}\<close>.\<close>

definition digit_char :: "nat \<Rightarrow> char" where
  "digit_char n = ''0123456789'' ! n"

fun str_nat :: "nat \<Rightarrow> string" where
  "str_nat n = (if n < 10 then [digit_char n] else str_nat (n div 10) @ [digit_char (n mod 10)])"

declare str_nat.simps [simp del]

definition str_int :: "int \<Rightarrow> string" where
  "str_int i = (if i < 0 then CHR ''-'' # str_nat (nat (- i)) else str_nat (nat i))"

definition format_06d :: "nat \<Rightarrow> string" where
  "format_06d n = (let s = str_nat n in replicate (6 - length s) (CHR ''0'') @ s)"

text \<open>\<^verbatim>\<open>column.like(p + '%')\<close> for a pattern \<open>p\<close> without wildcards.\<close>

definition like_prefix :: "string \<Rightarrow> string \<Rightarrow> bool" where
  "like_prefix p s = (take (length p) s = p)"

text \<open>\<^verbatim>\<open>generate_invoice_number\<close>; \<open>current_year\<close> is \<^verbatim>\<open>datetime.now().year\<close>.\<close>

definition generate_invoice_number :: "nat \<Rightarrow> db \<Rightarrow> string" where
  "generate_invoice_number current_year d =
     (let count = length (filter (\<lambda>r. like_prefix (str_nat current_year @ ''-'')
                                         (r_stevilka_racuna r)) (racuni d))
      in str_nat current_year @ ''-'' @ format_06d (count + 1))"

text \<open>
  The values of a line item as the columns of \<^verbatim>\<open>postavke_racuna\<close> store them:
  \<^verbatim>\<open>DECIMAL(10, 4)\<close>, \<^verbatim>\<open>DECIMAL(8, 5)\<close> and \<^verbatim>\<open>DECIMAL(10, 2)\<close>.
\<close>

definition stored_item :: "line_item \<Rightarrow> line_item option" where
  "stored_item item =
     (case (store_decimal 10 4 (li_poraba_kwh item), store_decimal 8 5 (li_cena_eur_kwh item),
            store_decimal 10 2 (li_znesek item)) of
        (Some poraba, Some cena, Some znesek) \<Rightarrow>
          Some (item\<lparr>li_poraba_kwh := poraba, li_cena_eur_kwh := cena, li_znesek := znesek\<rparr>)
      | _ \<Rightarrow> None)"

definition new_postavke :: "int \<Rightarrow> int \<Rightarrow> line_item list \<Rightarrow> postavka_racuna list" where
  "new_postavke first_id racun_id line_items =
     map (\<lambda>(i, item). \<lparr>p_id = first_id + int i, p_racun_id = racun_id,
                        p_meritev_id = li_meritev_id item,
                        p_poraba_kwh = li_poraba_kwh item,
                        p_cena_eur_kwh = li_cena_eur_kwh item,
                        p_znesek = li_znesek item\<rparr>)
       (enumerate 0 line_items)"

text \<open>
  \<^verbatim>\<open>create_invoice\<close>. \<^verbatim>\<open>db.flush()\<close> after \<^verbatim>\<open>db.add(racun)\<close> inserts the header: the column
  \<^verbatim>\<open>skupni_znesek\<close> is \<^verbatim>\<open>DECIMAL(10, 2)\<close>, and the unique constraint on \<^verbatim>\<open>stevilka_racuna\<close>
  rejects a number that a stored invoice has. \<^verbatim>\<open>db.commit()\<close> inserts the line items.
  Every exception is followed by \<^verbatim>\<open>db.rollback()\<close>. \<open>now\<close> is the server time that
  \<^verbatim>\<open>datum_izdaje\<close> defaults to; the invoice returned is the stored row.
\<close>

definition create_invoice ::
  "nat \<Rightarrow> timestamp \<Rightarrow> db \<Rightarrow> int \<Rightarrow> timestamp \<Rightarrow> timestamp \<Rightarrow> (error + racun) \<times> db" where
  "create_invoice current_year now d lokacija_id datum_od datum_do =
     (case calculate_invoice_amount d lokacija_id datum_od datum_do of
        (total_amount, line_items) \<Rightarrow>
          if line_items = [] then (Inl (ValueError ''Ni podatkov za izbrano obdobje''), d)
          else
            (let invoice_number = generate_invoice_number current_year d
             in case store_decimal 10 2 total_amount of
                  None \<Rightarrow> (Inl DataError, d)
                | Some znesek \<Rightarrow>
                    if invoice_number \<in> set (map r_stevilka_racuna (racuni d))
                    then (Inl IntegrityError, d)
                    else
                      (case those (map stored_item line_items) of
                         None \<Rightarrow> (Inl DataError, d)
                       | Some items \<Rightarrow>
                           (let racun = \<lparr>r_id = racun_seq d, r_lokacija_id = lokacija_id,
                                          r_stevilka_racuna = invoice_number,
                                          r_datum_od = datum_od, r_datum_do = datum_do,
                                          r_skupni_znesek = znesek,
                                          r_status = ''USTVARJEN'', r_datum_izdaje = now,
                                          r_pdf_pot = None\<rparr>
                            in (Inr racun,
                                d\<lparr>racuni := racuni d @ [racun],
                                  postavke := postavke d
                                    @ new_postavke (postavka_seq d) (racun_seq d) items,
                                  racun_seq := racun_seq d + 1,
                                  postavka_seq := postavka_seq d + int (length items)\<rparr>)))))"

text \<open>\<^verbatim>\<open>db.query(Racun).filter(Racun.id == racun_id).first()\<close>.\<close>

definition find_racun :: "db \<Rightarrow> int \<Rightarrow> racun option" where
  "find_racun d racun_id = find (\<lambda>r. r_id r = racun_id) (racuni d)"

text \<open>Assignments to the attributes of that row, committed.\<close>

fun update_racun :: "int \<Rightarrow> (racun \<Rightarrow> racun) \<Rightarrow> racun list \<Rightarrow> racun list" where
  "update_racun racun_id f [] = []"
| "update_racun racun_id f (r # rs) =
     (if r_id r = racun_id then f r # rs else r # update_racun racun_id f rs)"

text \<open>
  \<^verbatim>\<open>generate_pdf\<close>. \<open>rendered\<close> says whether the template engine and the PDF writer
  succeeded. The path is \<^verbatim>\<open>INVOICE_DIR/racun_<number>.pdf\<close>. The status is assigned
  whatever it was before.
\<close>

definition generate_pdf :: "bool \<Rightarrow> db \<Rightarrow> int \<Rightarrow> (error + string) \<times> db" where
  "generate_pdf rendered d racun_id =
     (case find_racun d racun_id of
        None \<Rightarrow> (Inl (ValueError ''Racun ne obstaja''), d)
      | Some racun \<Rightarrow>
          if r_lokacija_id racun \<notin> set (lokacije d) then (Inl AttributeError, d)
          else if \<not> rendered then (Inl ExternalError, d)
          else
            (let pdf_path = ''generated_invoices/racun_'' @ r_stevilka_racuna racun @ ''.pdf''
             in (Inr pdf_path,
                 d\<lparr>racuni := update_racun racun_id
                      (\<lambda>r. r\<lparr>r_pdf_pot := Some pdf_path, r_status := ''GENERIRAN''\<rparr>)
                      (racuni d)\<rparr>)))"

subsection \<open>EmailService\<close>

text \<open>\<^verbatim>\<open>not racun.pdf_pot\<close>: no path, or the empty one.\<close>

definition no_pdf :: "racun \<Rightarrow> bool" where
  "no_pdf r = (r_pdf_pot r = None \<or> r_pdf_pot r = Some [])"

text \<open>
  \<^verbatim>\<open>send_invoice_email\<close>. \<open>pdf_exists\<close> is \<^verbatim>\<open>os.path.exists(racun.pdf_pot)\<close>; \<open>delivered\<close>
  says that a recipient address is known, the SMTP settings are there and the client
  sent the message.
\<close>

definition send_invoice_email :: "bool \<Rightarrow> bool \<Rightarrow> db \<Rightarrow> int \<Rightarrow> (error + bool) \<times> db" where
  "send_invoice_email pdf_exists delivered d racun_id =
     (case find_racun d racun_id of
        None \<Rightarrow> (Inl (ValueError ''Racun ne obstaja''), d)
      | Some racun \<Rightarrow>
          if no_pdf racun \<or> \<not> pdf_exists then (Inl (ValueError ''PDF racuna ne obstaja''), d)
          else if r_lokacija_id racun \<notin> set (lokacije d) then (Inl AttributeError, d)
          else if \<not> delivered then (Inl ExternalError, d)
          else (Inr True,
                d\<lparr>racuni := update_racun racun_id (\<lambda>r. r\<lparr>r_status := ''POSLAN''\<rparr>)
                     (racuni d)\<rparr>))"


subsection \<open>The readings endpoints (routers/meritve.py)\<close>

text \<open>\<^verbatim>\<open>MeritevCreate\<close>, the body of a request.\<close>

record meritev_create =
  mc_lokacija_id :: int
  mc_casovni_zig :: timestamp
  mc_poraba_kwh :: decimal
  mc_dinamicna_cena_eur_kwh :: decimal

text \<open>
  The query for a reading of the same location and time, \<^verbatim>\<open>.first()\<close> of which is
  tested for truth.
\<close>

definition existing_meritev :: "meritev_create list \<Rightarrow> meritev_create \<Rightarrow> bool" where
  "existing_meritev stored x =
     (\<exists>m\<in>set stored. mc_lokacija_id m = mc_lokacija_id x \<and> mc_casovni_zig m = mc_casovni_zig x)"

text \<open>The columns of a stored reading that a request gives.\<close>

definition meritev_data :: "meritev \<Rightarrow> meritev_create" where
  "meritev_data m = \<lparr>mc_lokacija_id = m_lokacija_id m, mc_casovni_zig = m_casovni_zig m,
     mc_poraba_kwh = m_poraba_kwh m,
     mc_dinamicna_cena_eur_kwh = m_dinamicna_cena_eur_kwh m\<rparr>"

text \<open>
  The values of a reading as the columns of \<^verbatim>\<open>meritve\<close> store them: \<^verbatim>\<open>DECIMAL(10, 4)\<close>
  and \<^verbatim>\<open>DECIMAL(8, 5)\<close>.
\<close>

definition stored_values :: "meritev_create \<Rightarrow> meritev_create option" where
  "stored_values x =
     (case (store_decimal 10 4 (mc_poraba_kwh x),
            store_decimal 8 5 (mc_dinamicna_cena_eur_kwh x)) of
        (Some poraba, Some cena) \<Rightarrow>
          Some (x\<lparr>mc_poraba_kwh := poraba, mc_dinamicna_cena_eur_kwh := cena\<rparr>)
      | _ \<Rightarrow> None)"

text \<open>
  Inserting rows into \<^verbatim>\<open>meritve\<close>: ids come from the sequence, \<^verbatim>\<open>created_at\<close> is the
  server time \<open>now\<close>. \<open>None\<close> when the database refuses a value: no row is inserted then.
\<close>

definition new_meritve :: "int \<Rightarrow> timestamp \<Rightarrow> meritev_create list \<Rightarrow> meritev list" where
  "new_meritve first_id now xs =
     map (\<lambda>(i, x). \<lparr>m_id = first_id + int i, m_lokacija_id = mc_lokacija_id x,
                     m_casovni_zig = mc_casovni_zig x, m_poraba_kwh = mc_poraba_kwh x,
                     m_dinamicna_cena_eur_kwh = mc_dinamicna_cena_eur_kwh x,
                     m_created_at = now\<rparr>)
       (enumerate 0 xs)"

definition insert_meritve :: "timestamp \<Rightarrow> db \<Rightarrow> meritev_create list \<Rightarrow> db option" where
  "insert_meritve now d xs =
     (case those (map stored_values xs) of
        None \<Rightarrow> None
      | Some ys \<Rightarrow>
          Some (d\<lparr>meritve := meritve d @ new_meritve (meritev_seq d) now ys,
                  meritev_seq := meritev_seq d + int (length ys)\<rparr>))"

text \<open>
  \<^verbatim>\<open>create_meritev\<close>, the endpoint \<^verbatim>\<open>POST /meritve/\<close>. An exception of the commit is
  answered with HTTP 400 after a rollback; the reading returned is the stored row.
\<close>

definition create_meritev :: "timestamp \<Rightarrow> db \<Rightarrow> meritev_create \<Rightarrow> (error + meritev) \<times> db" where
  "create_meritev now d x =
     (if mc_lokacija_id x \<notin> set (lokacije d)
      then (Inl (HTTPException 404 ''Lokacija ne obstaja''), d)
      else if existing_meritev (map meritev_data (meritve d)) x
      then (Inl (HTTPException 400 ''Meritev za ta cas in lokacijo ze obstaja''), d)
      else if dec_lt0 (mc_poraba_kwh x)
      then (Inl (HTTPException 400 ''Poraba ne sme biti negativna''), d)
      else if dec_le0 (mc_dinamicna_cena_eur_kwh x)
      then (Inl (HTTPException 400 ''Cena mora biti pozitivna''), d)
      else
        (case insert_meritve now d [x] of
           None \<Rightarrow> (Inl (HTTPException 400 ''Napaka pri ustvarjanju meritve''), d)
         | Some d' \<Rightarrow> (Inr (last (meritve d')), d')))"

text \<open>
  The messages collected by the bulk endpoint:
  \<^verbatim>\<open>Meritev za <casovni_zig> ze obstaja\<close>, \<^verbatim>\<open>Neveljavne vrednosti za <casovni_zig>\<close> and, for
  an exception inside the loop, \<^verbatim>\<open>Napaka pri <casovni_zig>: ...\<close>.
\<close>

datatype bulk_error =
  ZeObstaja timestamp
  | NeveljavneVrednosti timestamp
  | Napaka timestamp

text \<open>
  The loop \<^verbatim>\<open>for meritev_data in bulk_data.meritve\<close>. \<open>stored\<close> are the committed
  readings and \<open>pending\<close> the ones this call has added to the session. The query sees
  the pending ones when the session flushes before queries (\<open>autoflush\<close>), which is
  set where the session is made, in a module that is not part of the sources; so it
  is a parameter. With it, a pending reading that the database refuses makes the query
  raise, now and for every later record, inside the \<^verbatim>\<open>try\<close> of the loop. The query
  compares location and time, which storing does not change.
\<close>

fun bulk_loop ::
  "bool \<Rightarrow> meritev_create list \<Rightarrow> meritev_create list \<Rightarrow> meritev_create list
   \<Rightarrow> nat \<Rightarrow> nat \<Rightarrow> bulk_error list
   \<Rightarrow> meritev_create list \<times> nat \<times> nat \<times> bulk_error list" where
  "bulk_loop autoflush stored [] pending success_count error_count errs =
     (pending, success_count, error_count, errs)"
| "bulk_loop autoflush stored (x # xs) pending success_count error_count errs =
     (if autoflush \<and> those (map stored_values pending) = None
      then bulk_loop autoflush stored xs pending success_count (error_count + 1)
             (errs @ [Napaka (mc_casovni_zig x)])
      else if existing_meritev (stored @ (if autoflush then pending else [])) x
      then bulk_loop autoflush stored xs pending success_count (error_count + 1)
             (errs @ [ZeObstaja (mc_casovni_zig x)])
      else if dec_lt0 (mc_poraba_kwh x) \<or> dec_le0 (mc_dinamicna_cena_eur_kwh x)
      then bulk_loop autoflush stored xs pending success_count (error_count + 1)
             (errs @ [NeveljavneVrednosti (mc_casovni_zig x)])
      else bulk_loop autoflush stored xs (pending @ [x]) (success_count + 1) error_count errs)"

record bulk_result =
  success_count :: nat
  error_count :: nat
  errors :: "bulk_error list"

text \<open>
  \<^verbatim>\<open>create_bulk_meritve\<close>, the endpoint \<^verbatim>\<open>POST /meritve/bulk\<close>. The locations of all records
  are checked before the loop. An exception of the commit reaches the outer \<^verbatim>\<open>except\<close>:
  rollback and HTTP 500.
\<close>

definition create_bulk_meritve ::
  "bool \<Rightarrow> timestamp \<Rightarrow> db \<Rightarrow> meritev_create list \<Rightarrow> (error + bulk_result) \<times> db" where
  "create_bulk_meritve autoflush now d xs =
     (if xs = [] then (Inl (HTTPException 400 ''Seznam meritev je prazen''), d)
      else if length xs > 10000
      then (Inl (HTTPException 400 ''Prevec meritev naenkrat. Maksimalno 10.000''), d)
      else
        (case find (\<lambda>x. mc_lokacija_id x \<notin> set (lokacije d)) xs of
           Some x \<Rightarrow>
             (Inl (HTTPException 400
                     (''Lokacija '' @ str_int (mc_lokacija_id x) @ '' ne obstaja'')), d)
         | None \<Rightarrow>
             (case bulk_loop autoflush (map meritev_data (meritve d)) xs [] 0 0 [] of
                (pending, sc, ec, errs) \<Rightarrow>
                  if sc > 0
                  then
                    (case insert_meritve now d pending of
                       None \<Rightarrow> (Inl (HTTPException 500 ''Napaka pri mnozicnem uvozu''), d)
                     | Some d' \<Rightarrow>
                         (Inr \<lparr>success_count = sc, error_count = ec,
                               errors = take 10 errs\<rparr>, d'))
                  else (Inr \<lparr>success_count = sc, error_count = ec,
                              errors = take 10 errs\<rparr>, d))))"

subsection \<open>CSVService (schemas/csv_service.py)\<close>

text \<open>
  A cell of a numeric column, by what \<^verbatim>\<open>str(cell).replace(',', '.')\<close> is: a decimal
  literal, which \<^verbatim>\<open>float\<close> and \<^verbatim>\<open>Decimal\<close> both read, or a text that both reject. (Texts
  that \<^verbatim>\<open>float\<close> reads as a NaN or an infinity, among them an empty cell, are not
  modelled; and a literal is negative for \<^verbatim>\<open>float\<close> when it is as a decimal.) A timestamp
  cell is a time or missing.
\<close>

datatype cell = Number decimal | Unparsable

record csv_row =
  c_casovni_zig :: "timestamp option"
  c_poraba_kwh :: cell
  c_dinamicna_cena_eur_kwh :: cell

record dataframe =
  columns :: "string list"
  rows :: "csv_row list"

datatype row_error =
  ManjkaCasovnaZnacka
  | PorabaNegativna
  | NeveljavnaPoraba
  | CenaNiPozitivna
  | NeveljavnaCena

text \<open>
  The messages of the import. \<open>Vrstica n es\<close> is the text \<^verbatim>\<open>Vrstica <n>: <es, joined>\<close>
  and \<open>UspesnoUvozenih n\<close> is \<^verbatim>\<open>Uspesno uvozenih <n> meritev\<close>.
\<close>

datatype csv_message =
  LokacijaNeObstaja
  | NapakeVPodatkih
  | ManjkajoStolpci "string list"
  | PraznaDatoteka
  | Vrstica nat "row_error list"
  | UspesnoUvozenih nat
  | NiVeljavnihPodatkov
  | NapakaPriUvozu

definition required_columns :: "string list" where
  "required_columns = [''casovni_zig'', ''poraba_kwh'', ''dinamicna_cena_eur_kwh'']"

text \<open>The checks of one row, in the order of the source.\<close>

definition row_errors :: "csv_row \<Rightarrow> row_error list" where
  "row_errors r =
     (if c_casovni_zig r = None then [ManjkaCasovnaZnacka] else [])
     @ (case c_poraba_kwh r of
          Number poraba \<Rightarrow> if dec_lt0 poraba then [PorabaNegativna] else []
        | Unparsable \<Rightarrow> [NeveljavnaPoraba])
     @ (case c_dinamicna_cena_eur_kwh r of
          Number cena \<Rightarrow> if dec_le0 cena then [CenaNiPozitivna] else []
        | Unparsable \<Rightarrow> [NeveljavnaCena])"

text \<open>The loop \<^verbatim>\<open>for idx, row in df.iterrows()\<close>; the index of a parsed file counts from 0.\<close>

fun validate_rows :: "nat \<Rightarrow> csv_row list \<Rightarrow> csv_message list" where
  "validate_rows idx [] = []"
| "validate_rows idx (r # rs) =
     (if row_errors r \<noteq> [] then [Vrstica (idx + 2) (row_errors r)] else [])
     @ validate_rows (idx + 1) rs"

definition validate_csv_data :: "dataframe \<Rightarrow> csv_message list" where
  "validate_csv_data df =
     (let missing_columns = filter (\<lambda>col. col \<notin> set (columns df)) required_columns
      in if missing_columns \<noteq> [] then [ManjkajoStolpci missing_columns]
         else if rows df = [] then [PraznaDatoteka]
         else validate_rows 0 (rows df))"

record csv_import_response =
  success :: bool
  message :: csv_message
  imported_count :: nat
  csv_errors :: "csv_message list"

text \<open>
  The loop that prepares the rows for the insert: a row whose conversion to \<^verbatim>\<open>Decimal\<close>
  raises is skipped.
\<close>

fun prepare_rows :: "csv_row list \<Rightarrow> (timestamp option \<times> decimal \<times> decimal) list" where
  "prepare_rows [] = []"
| "prepare_rows (r # rs) =
     (case (c_poraba_kwh r, c_dinamicna_cena_eur_kwh r) of
        (Number poraba, Number cena) \<Rightarrow> (c_casovni_zig r, poraba, cena) # prepare_rows rs
      | _ \<Rightarrow> prepare_rows rs)"

text \<open>
  \<^verbatim>\<open>import_csv_to_database\<close>. The delete of \<^verbatim>\<open>replace_existing\<close> is refused when a line item
  refers to a reading of the location, and the insert when a row has no timestamp or a
  value beyond its column; the exception is followed by \<^verbatim>\<open>db.rollback()\<close>, which also
  undoes the delete, as does a return without commit. There is no query for stored
  readings of the same time and no bound on the number of rows.
\<close>

definition import_csv_to_database ::
  "timestamp \<Rightarrow> db \<Rightarrow> dataframe \<Rightarrow> int \<Rightarrow> bool \<Rightarrow> csv_import_response \<times> db" where
  "import_csv_to_database now d df lokacija_id replace_existing =
     (if lokacija_id \<notin> set (lokacije d)
      then (\<lparr>success = False, message = LokacijaNeObstaja, imported_count = 0,
              csv_errors = [LokacijaNeObstaja]\<rparr>, d)
      else
        (let errs = validate_csv_data df
         in if errs \<noteq> []
            then (\<lparr>success = False, message = NapakeVPodatkih, imported_count = 0,
                    csv_errors = take 10 errs\<rparr>, d)
            else if replace_existing
                    \<and> (\<exists>m\<in>set (meritve d). m_lokacija_id m = lokacija_id
                          \<and> (\<exists>p\<in>set (postavke d). p_meritev_id p = m_id m))
            then (\<lparr>success = False, message = NapakaPriUvozu, imported_count = 0,
                    csv_errors = [NapakaPriUvozu]\<rparr>, d)
            else
              (let d1 = (if replace_existing
                         then d\<lparr>meritve := filter (\<lambda>m. m_lokacija_id m \<noteq> lokacija_id)
                                              (meritve d)\<rparr>
                         else d);
                   data = prepare_rows (rows df)
               in if data \<noteq> []
                  then
                    (if \<exists>x\<in>set data. fst x = None
                     then (\<lparr>success = False, message = NapakaPriUvozu, imported_count = 0,
                             csv_errors = [NapakaPriUvozu]\<rparr>, d)
                     else
                       (case insert_meritve now d1
                               (map (\<lambda>(t, poraba, cena).
                                      \<lparr>mc_lokacija_id = lokacija_id, mc_casovni_zig = the t,
                                       mc_poraba_kwh = poraba,
                                       mc_dinamicna_cena_eur_kwh = cena\<rparr>) data) of
                          None \<Rightarrow>
                            (\<lparr>success = False, message = NapakaPriUvozu,
                              imported_count = 0, csv_errors = [NapakaPriUvozu]\<rparr>, d)
                        | Some d2 \<Rightarrow>
                            (\<lparr>success = True, message = UspesnoUvozenih (length data),
                              imported_count = length data, csv_errors = []\<rparr>, d2)))
                  else (\<lparr>success = False, message = NiVeljavnihPodatkov,
                          imported_count = 0, csv_errors = [NiVeljavnihPodatkov]\<rparr>, d))))"

subsection \<open>The invoice endpoints (routers/racuni.py)\<close>

text \<open>\<^verbatim>\<open>str(e)\<close> of an exception, for the detail of the response.\<close>

fun error_text :: "error \<Rightarrow> string" where
  "error_text (HTTPException code detail) = detail"
| "error_text (ValueError msg) = msg"
| "error_text AttributeError = ''AttributeError''"
| "error_text IntegrityError = ''IntegrityError''"
| "error_text DataError = ''DataError''"
| "error_text (NameError name) = name"
| "error_text ExternalError = ''ExternalError''"

text \<open>
  The background task \<^verbatim>\<open>generate_pdf_background\<close>: exceptions are logged and dropped.
\<close>

definition generate_pdf_background ::
  "bool \<Rightarrow> bool \<Rightarrow> bool \<Rightarrow> db \<Rightarrow> int \<Rightarrow> bool \<Rightarrow> db" where
  "generate_pdf_background rendered pdf_exists delivered d racun_id send_email =
     (case generate_pdf rendered d racun_id of
        (Inl e, d') \<Rightarrow> d'
      | (Inr pdf_path, d') \<Rightarrow>
          if send_email then snd (send_invoice_email pdf_exists delivered d' racun_id)
          else d')"

text \<open>
  \<^verbatim>\<open>generate_racun\<close>, the endpoint \<^verbatim>\<open>POST /racuni/generate\<close>, with the background task it
  schedules run to its end.
\<close>

definition generate_racun ::
  "nat \<Rightarrow> timestamp \<Rightarrow> bool \<Rightarrow> bool \<Rightarrow> bool \<Rightarrow> db \<Rightarrow> int \<Rightarrow> timestamp \<Rightarrow> timestamp \<Rightarrow> bool
   \<Rightarrow> (error + racun) \<times> db" where
  "generate_racun current_year now rendered pdf_exists delivered d lokacija_id datum_od datum_do
     send_email =
     (if lokacija_id \<notin> set (lokacije d)
      then (Inl (HTTPException 404 ''Lokacija ne obstaja''), d)
      else
        (case create_invoice current_year now d lokacija_id datum_od datum_do of
           (Inl e, d') \<Rightarrow> (Inl (HTTPException 400 (error_text e)), d')
         | (Inr racun, d') \<Rightarrow>
             (Inr racun,
              generate_pdf_background rendered pdf_exists delivered d' (r_id racun)
                send_email)))"

text \<open>
  \<^verbatim>\<open>get_racun_pdf\<close>, the endpoint \<^verbatim>\<open>GET /racuni/{racun_id}/pdf\<close>: the document is
  generated only when the invoice has no path yet.
\<close>

definition get_racun_pdf :: "bool \<Rightarrow> db \<Rightarrow> int \<Rightarrow> (error + string) \<times> db" where
  "get_racun_pdf rendered d racun_id =
     (case find_racun d racun_id of
        None \<Rightarrow> (Inl (HTTPException 404 ''Racun ne obstaja''), d)
      | Some racun \<Rightarrow>
          if no_pdf racun then generate_pdf rendered d racun_id
          else (Inr (the (r_pdf_pot racun)), d))"

text \<open>
  \<^verbatim>\<open>send_racun_email\<close>, the endpoint \<^verbatim>\<open>POST /racuni/{racun_id}/send-email\<close>, with its
  background task \<^verbatim>\<open>send_email_background\<close>, which logs and drops exceptions.
\<close>

definition send_racun_email :: "bool \<Rightarrow> bool \<Rightarrow> db \<Rightarrow> int \<Rightarrow> (error + unit) \<times> db" where
  "send_racun_email pdf_exists delivered d racun_id =
     (case find_racun d racun_id of
        None \<Rightarrow> (Inl (HTTPException 404 ''Racun ne obstaja''), d)
      | Some racun \<Rightarrow> (Inr (), snd (send_invoice_email pdf_exists delivered d racun_id)))"

text \<open>\<^verbatim>\<open>db.delete(racun)\<close>: the row found by the query leaves the table.\<close>

fun remove_racun :: "int \<Rightarrow> racun list \<Rightarrow> racun list" where
  "remove_racun racun_id [] = []"
| "remove_racun racun_id (r # rs) =
     (if r_id r = racun_id then rs else r # remove_racun racun_id rs)"

text \<open>
  \<^verbatim>\<open>delete_racun\<close>, the endpoint \<^verbatim>\<open>DELETE /racuni/{racun_id}\<close>. The relationship
  \<^verbatim>\<open>Racun.postavke\<close> has no delete cascade, so the session first sets \<^verbatim>\<open>racun_id\<close> of the
  invoice's line items to \<^verbatim>\<open>NULL\<close>; the column is \<^verbatim>\<open>nullable=False\<close>, and with a line item
  the commit raises \<^verbatim>\<open>IntegrityError\<close>, which the endpoint does not catch.
\<close>

definition delete_racun :: "db \<Rightarrow> int \<Rightarrow> (error + unit) \<times> db" where
  "delete_racun d racun_id =
     (case find_racun d racun_id of
        None \<Rightarrow> (Inl (HTTPException 404 ''Racun ne obstaja''), d)
      | Some racun \<Rightarrow>
          if \<exists>p\<in>set (postavke d). p_racun_id p = racun_id then (Inl IntegrityError, d)
          else (Inr (), d\<lparr>racuni := remove_racun racun_id (racuni d)\<rparr>))"

subsection \<open>Cleanup (routers/admin.py)\<close>

text \<open>
  The names that the module \<^verbatim>\<open>routers/admin.py\<close> binds: those of its import statements
  (lines 1 to 16) and those it defines. A name used in a function body is looked up
  here (and then among the builtins, which have no \<^verbatim>\<open>timedelta\<close>) when the body runs.
\<close>

definition admin_globals :: "string list" where
  "admin_globals =
     [''APIRouter'', ''Depends'', ''HTTPException'', ''UploadFile'', ''File'', ''Form'',
      ''BackgroundTasks'', ''Session'', ''List'', ''Optional'', ''date'', ''datetime'',
      ''get_db'', ''app_logger'', ''Stranka'', ''Lokacija'', ''Meritev'', ''Racun'',
      ''CSVImportRequest'', ''CSVImportResponse'', ''DashboardStats'',
      ''LokacijaStatistics'', ''CSVService'', ''CalculationService'',
      ''router'', ''import_csv'', ''get_dashboard_stats'', ''get_location_statistics'',
      ''cleanup_old_data'']"

record cleanup_report =
  dry_run :: bool
  cutoff_date :: timestamp
  meritve_count :: nat
  racuni_count :: nat

text \<open>
  \<^verbatim>\<open>cleanup_old_data\<close>, the endpoint \<^verbatim>\<open>POST /admin/cleanup-old-data\<close>. Its first statement
  evaluates \<^verbatim>\<open>datetime.now() - timedelta(days=days_old)\<close>, outside any \<^verbatim>\<open>try\<close>.
\<close>

definition cleanup_old_data :: "timestamp \<Rightarrow> db \<Rightarrow> int \<Rightarrow> bool \<Rightarrow> (error + cleanup_report) \<times> db" where
  "cleanup_old_data now d days_old dry =
     (if ''datetime'' \<notin> set admin_globals then (Inl (NameError ''datetime''), d)
      else if ''timedelta'' \<notin> set admin_globals then (Inl (NameError ''timedelta''), d)
      else
        (let cutoff = now - days_old * 86400;
             old_meritve = filter (\<lambda>m. m_created_at m < cutoff) (meritve d);
             old_racuni = filter (\<lambda>r. r_datum_izdaje r < cutoff) (racuni d)
         in if dry
            then (Inr \<lparr>dry_run = True, cutoff_date = cutoff,
                       meritve_count = length old_meritve,
                       racuni_count = length old_racuni\<rparr>, d)
            else (Inr \<lparr>dry_run = False, cutoff_date = cutoff,
                       meritve_count = length old_meritve,
                       racuni_count = length old_racuni\<rparr>,
                  d\<lparr>meritve := filter (\<lambda>m. \<not> m_created_at m < cutoff) (meritve d),
                    racuni := filter (\<lambda>r. \<not> r_datum_izdaje r < cutoff) (racuni d)\<rparr>)))"

subsection \<open>The endpoints as one transition function\<close>

text \<open>
  What a request does not determine: the clock, the session's flush mode, and the
  outcome of the external collaborators.
\<close>

record env =
  e_now :: timestamp
  e_year :: nat
  e_autoflush :: bool
  e_rendered :: bool
  e_pdf_exists :: bool
  e_delivered :: bool

datatype request =
  CreateMeritev meritev_create
  | CreateBulkMeritve "meritev_create list"
  | ImportCsv dataframe int bool
  | GenerateRacun int timestamp timestamp bool
  | GetRacunPdf int
  | SendRacunEmail int
  | DeleteRacun int
  | CleanupOldData int bool

text \<open>
  The database after a request. The endpoints of customers and locations and the
  deletion of readings write neither \<^verbatim>\<open>racuni\<close> nor \<^verbatim>\<open>postavke_racuna\<close> and are left out.
\<close>

fun handle :: "env \<Rightarrow> request \<Rightarrow> db \<Rightarrow> db" where
  "handle e (CreateMeritev x) d = snd (create_meritev (e_now e) d x)"
| "handle e (CreateBulkMeritve xs) d = snd (create_bulk_meritve (e_autoflush e) (e_now e) d xs)"
| "handle e (ImportCsv df lokacija_id replace_existing) d =
     snd (import_csv_to_database (e_now e) d df lokacija_id replace_existing)"
| "handle e (GenerateRacun lokacija_id datum_od datum_do send_email) d =
     snd (generate_racun (e_year e) (e_now e) (e_rendered e) (e_pdf_exists e) (e_delivered e)
            d lokacija_id datum_od datum_do send_email)"
| "handle e (GetRacunPdf racun_id) d = snd (get_racun_pdf (e_rendered e) d racun_id)"
| "handle e (SendRacunEmail racun_id) d =
     snd (send_racun_email (e_pdf_exists e) (e_delivered e) d racun_id)"
| "handle e (DeleteRacun racun_id) d = snd (delete_racun d racun_id)"
| "handle e (CleanupOldData days_old dry) d = snd (cleanup_old_data (e_now e) d days_old dry)"

text \<open>The databases that requests, served one after the other, lead to from one without invoices.\<close>

inductive reachable :: "db \<Rightarrow> bool" where
  initial: "racuni d = [] \<Longrightarrow> reachable d"
| request: "reachable d \<Longrightarrow> reachable (handle e rq d)"

text \<open>The order of the states of an invoice, as the spec gives it.\<close>

definition status_rank :: "string \<Rightarrow> nat" where
  "status_rank s =
     (if s = ''USTVARJEN'' then 0 else if s = ''GENERIRAN'' then 1
      else if s = ''POSLAN'' then 2 else 0)"


subsection \<open>Auxiliary definitions for the proofs\<close>

text \<open>The amount and the line item that one pass of \<open>invoice_loop\<close> computes for a reading.\<close>

definition znesek_of :: "meritev \<Rightarrow> decimal" where
  "znesek_of m =
     quantize (dec_mul (m_poraba_kwh m) (m_dinamicna_cena_eur_kwh m)) (Decimal 1 2)"

definition line_item_of :: "meritev \<Rightarrow> line_item" where
  "line_item_of m =
     \<lparr>li_meritev_id = m_id m, li_casovni_zig = m_casovni_zig m,
      li_poraba_kwh = m_poraba_kwh m, li_cena_eur_kwh = m_dinamicna_cena_eur_kwh m,
      li_znesek = znesek_of m\<rparr>"

text \<open>Example data: a location with the id 1, and readings of 0.1000 kWh at 0.15000.\<close>

definition reading :: "int \<Rightarrow> timestamp \<Rightarrow> meritev" where
  "reading i t =
     \<lparr>m_id = i, m_lokacija_id = 1, m_casovni_zig = t, m_poraba_kwh = Decimal 1000 4,
      m_dinamicna_cena_eur_kwh = Decimal 15000 5, m_created_at = 0\<rparr>"

definition db_of :: "meritev list \<Rightarrow> racun list \<Rightarrow> db" where
  "db_of ms rs =
     \<lparr>lokacije = [1], meritve = ms, racuni = rs, postavke = [],
      meritev_seq = 1 + int (length ms), racun_seq = 1 + int (length rs), postavka_seq = 1\<rparr>"

text \<open>Rows of a CSV file: a valid one, and one with a negative consumption.\<close>

definition csv_ok :: "timestamp \<Rightarrow> csv_row" where
  "csv_ok t = \<lparr>c_casovni_zig = Some t, c_poraba_kwh = Number (Decimal 20000 4),
               c_dinamicna_cena_eur_kwh = Number (Decimal 20000 5)\<rparr>"

definition csv_negative :: "timestamp \<Rightarrow> csv_row" where
  "csv_negative t = \<lparr>c_casovni_zig = Some t, c_poraba_kwh = Number (Decimal (- 20000) 4),
               c_dinamicna_cena_eur_kwh = Number (Decimal 20000 5)\<rparr>"

definition csv_file :: "csv_row list \<Rightarrow> dataframe" where
  "csv_file rs = \<lparr>columns = required_columns, rows = rs\<rparr>"

text \<open>The reading that a row without errors is imported as.\<close>

fun cell_decimal :: "cell \<Rightarrow> decimal" where
  "cell_decimal (Number x) = x"
| "cell_decimal Unparsable = Decimal 0 0"

definition csv_reading :: "int \<Rightarrow> csv_row \<Rightarrow> meritev_create" where
  "csv_reading lokacija_id r =
     \<lparr>mc_lokacija_id = lokacija_id, mc_casovni_zig = the (c_casovni_zig r),
      mc_poraba_kwh = cell_decimal (c_poraba_kwh r),
      mc_dinamicna_cena_eur_kwh = cell_decimal (c_dinamicna_cena_eur_kwh r)\<rparr>"




text \<open>An invoice of the year 2025 with the sequence number \<open>n\<close>, for location 1.\<close>

definition invoice :: "int \<Rightarrow> nat \<Rightarrow> string \<Rightarrow> string option \<Rightarrow> racun" where
  "invoice i n status pdf =
     \<lparr>r_id = i, r_lokacija_id = 1, r_stevilka_racuna = ''2025-'' @ format_06d n,
      r_datum_od = 0, r_datum_do = 200, r_skupni_znesek = Decimal 2 2, r_status = status,
      r_datum_izdaje = 0, r_pdf_pot = pdf\<rparr>"

text \<open>
  What the requests keep true of the invoices: ids are distinct and below the next value
  of the sequence, and a sent invoice has a document path. And how the invoices of
  \<open>d'\<close> relate to those of \<open>d\<close> after a request: each is new, with an id from the
  sequence, or an invoice of \<open>d\<close> whose status has not moved back.
\<close>

definition inv_racuni :: "db \<Rightarrow> bool" where
  "inv_racuni d =
     (distinct (map r_id (racuni d))
      \<and> list_all (\<lambda>r. r_id r < racun_seq d \<and> (r_status r = ''POSLAN'' \<longrightarrow> \<not> no_pdf r))
           (racuni d))"

definition step_ok :: "db \<Rightarrow> db \<Rightarrow> bool" where
  "step_ok d d' =
     (inv_racuni d' \<and> racun_seq d \<le> racun_seq d'
      \<and> list_all (\<lambda>r'. racun_seq d \<le> r_id r'
                      \<or> list_ex (\<lambda>r. r_id r = r_id r'
                                     \<and> status_rank (r_status r) \<le> status_rank (r_status r'))
                           (racuni d))
           (racuni d'))"

text \<open>An environment in which the collaborators succeed.\<close>

definition env_ok :: env where
  "env_ok = \<lparr>e_now = 0, e_year = 2025, e_autoflush = False, e_rendered = True,
             e_pdf_exists = True, e_delivered = True\<rparr>"


section \<open>Properties\<close>

subsection \<open>Decimals denote what the spec's rounding gives\<close>

lemma dec_val_mul: "dec_val (dec_mul a b) = dec_val a * dec_val b"
  by (cases a; cases b) (simp add: dec_val_def power_add)

lemma dec_val_add: "dec_val (dec_add a b) = dec_val a + dec_val b"
proof (cases a; cases b)
  fix x p y q assume a: "a = Decimal x p" and b: "b = Decimal y q"
  have 1: "(10::rat) ^ max p q = 10 ^ p * 10 ^ (max p q - p)"
    by (simp flip: power_add)
  have 2: "(10::rat) ^ max p q = 10 ^ q * 10 ^ (max p q - q)"
    by (simp flip: power_add)
  have "(of_int x * 10 ^ (max p q - p) + of_int y * 10 ^ (max p q - q)) / (10::rat) ^ max p q
      = of_int x * 10 ^ (max p q - p) / 10 ^ max p q
        + of_int y * 10 ^ (max p q - q) / 10 ^ max p q"
    by (simp add: add_divide_distrib)
  also have "of_int x * 10 ^ (max p q - p) / (10::rat) ^ max p q = of_int x / 10 ^ p"
    by (subst 1) simp
  also have "of_int y * 10 ^ (max p q - q) / (10::rat) ^ max p q = of_int y / 10 ^ q"
    by (subst 2) simp
  finally show ?thesis using a b by (simp add: dec_val_def)
qed

lemma spec_round_half_even_of_int: "spec_round_half_even (of_int n) = n"
  by (simp add: spec_round_half_even_def)

lemma spec_round_half_even_div:
  assumes "0 < m"
  shows "spec_round_half_even (of_int a / of_int m) = round_half_even a m"
proof -
  have f: "\<lfloor>(of_int a / of_int m :: rat)\<rfloor> = a div m"
    by (simp add: floor_divide_of_int_eq)
  have a: "a = (a div m) * m + a mod m" by simp
  have m: "(of_int m :: rat) > 0" using assms by simp
  have d: "(of_int a / of_int m :: rat) - of_int (a div m) = of_int (a mod m) / of_int m"
    using m
    by (metis a add_diff_cancel_left' add_divide_distrib less_irrefl
        nonzero_mult_div_cancel_right of_int_add of_int_mult)
  have lt: "(of_int (a mod m) / of_int m < (1 / 2 :: rat)) = (2 * (a mod m) < m)"
    using m by (simp add: field_simps) (metis of_int_less_iff of_int_mult of_int_numeral)
  have gt: "((1 / 2 :: rat) < of_int (a mod m) / of_int m) = (m < 2 * (a mod m))"
    using m by (simp add: field_simps) (metis of_int_less_iff of_int_mult of_int_numeral)
  show ?thesis
    unfolding spec_round_half_even_def round_half_even_def Let_def f d lt gt ..
qed

lemma dec_val_quantize: "dec_val (quantize d e) = spec_round (places e) (dec_val d)"
proof (cases d)
  case (Decimal c p)
  let ?k = "places e"
  show ?thesis
  proof (cases "p \<le> ?k")
    case True
    then have "(10::rat) ^ ?k = 10 ^ p * 10 ^ (?k - p)" by (simp flip: power_add)
    then have "of_int c / (10::rat) ^ p * 10 ^ ?k = of_int (c * 10 ^ (?k - p))" by simp
    then show ?thesis using True Decimal
      by (simp add: dec_val_def spec_round_def spec_round_half_even_of_int Let_def
          del: of_int_mult)
  next
    case False
    then have "(10::rat) ^ p = 10 ^ ?k * 10 ^ (p - ?k)" by (simp flip: power_add)
    then have "of_int c / (10::rat) ^ p * 10 ^ ?k = of_int c / of_int (10 ^ (p - ?k))" by simp
    moreover have "(0::int) < 10 ^ (p - ?k)" by simp
    ultimately show ?thesis
      using False Decimal spec_round_half_even_div[of "10 ^ (p - ?k)" c]
      by (simp add: dec_val_def spec_round_def Let_def)
  qed
qed

lemma places_quantize: "places (quantize d e) = places e"
  by (cases d) (simp add: Let_def)

lemma places_dec_add: "places (dec_add a b) = max (places a) (places b)"
  by (cases a; cases b) simp

lemma quantize_same_places: "places d = places e \<Longrightarrow> quantize d e = d"
  by (cases d) (simp add: Let_def)

lemma places_foldl_add:
  "\<forall>z\<in>set zs. places z = k \<Longrightarrow> places t \<le> k \<Longrightarrow> zs \<noteq> [] \<Longrightarrow>
   places (foldl dec_add t zs) = k"
proof (induction zs arbitrary: t)
  case Nil
  then show ?case by simp
next
  case (Cons z zs)
  show ?case
  proof (cases "zs = []")
    case True
    with Cons.prems show ?thesis by (simp add: places_dec_add)
  next
    case False
    with Cons.prems Cons.IH[of "dec_add t z"] show ?thesis
      by (simp add: places_dec_add)
  qed
qed

lemma dec_val_foldl_add:
  "dec_val (foldl dec_add t zs) = dec_val t + (\<Sum>z\<leftarrow>zs. dec_val z)"
  by (induction zs arbitrary: t) (simp_all add: dec_val_add)

subsection \<open>The invoice calculator\<close>

lemma invoice_loop_eq:
  "invoice_loop ms items tot =
     (foldl dec_add tot (map znesek_of ms), items @ map line_item_of ms)"
  by (induction ms arbitrary: items tot)
     (simp_all add: Let_def znesek_of_def line_item_of_def)

lemma sort_key_Nil_iff: "sort_key f xs = [] \<longleftrightarrow> xs = []"
  by (metis length_sort length_0_conv)

lemma calculate_invoice_amount_eq:
  assumes "query_meritve d l od do \<noteq> []"
  shows "calculate_invoice_amount d l od do =
      (foldl dec_add (Decimal 0 1)
         (map znesek_of (sort_key m_casovni_zig (query_meritve d l od do))),
       map line_item_of (sort_key m_casovni_zig (query_meritve d l od do)))"
proof -
  let ?ms = "sort_key m_casovni_zig (query_meritve d l od do)"
  have ne: "?ms \<noteq> []" using assms by (simp add: sort_key_Nil_iff)
  have "places (foldl dec_add (Decimal 0 1) (map znesek_of ?ms)) = 2"
    using ne by (intro places_foldl_add) (auto simp: znesek_of_def places_quantize)
  then have "quantize (foldl dec_add (Decimal 0 1) (map znesek_of ?ms)) (Decimal 1 2)
      = foldl dec_add (Decimal 0 1) (map znesek_of ?ms)"
    by (intro quantize_same_places) simp
  then show ?thesis using ne
    by (simp add: calculate_invoice_amount_def invoice_loop_eq Let_def)
qed

lemma calculate_invoice_amount_empty:
  "query_meritve d l od do = [] \<Longrightarrow> calculate_invoice_amount d l od do = (Decimal 0 1, [])"
  by (simp add: calculate_invoice_amount_def)

text \<open>
  Claim C2. Over a non-empty set of matched readings, the line items are those of the
  readings in the order of their timestamps; the amount of each is its consumption
  times its price, rounded to 2 decimals; and the total is the sum of these rounded
  amounts, rounded to 2 decimals, which is that sum itself. The witness has two
  readings of 0.1000 kWh at 0.15000: each amount is 0.02 and the total 0.04, where
  rounding the sum of the raw products gives 0.03.
\<close>

theorem invoice_amounts_rounded_per_item:
  assumes "query_meritve d l od do \<noteq> []"
    and "calculate_invoice_amount d l od do = (tot, items)"
    and "ms = sort_key m_casovni_zig (query_meritve d l od do)"
  shows "map li_meritev_id items = map m_id ms
       \<and> map li_poraba_kwh items = map m_poraba_kwh ms
       \<and> map li_cena_eur_kwh items = map m_dinamicna_cena_eur_kwh ms
       \<and> (\<forall>it\<in>set items. dec_val (li_znesek it) =
             spec_round 2 (dec_val (li_poraba_kwh it) * dec_val (li_cena_eur_kwh it)))
       \<and> dec_val tot = spec_round 2 (\<Sum>it\<leftarrow>items. dec_val (li_znesek it))
       \<and> dec_val tot = (\<Sum>it\<leftarrow>items. dec_val (li_znesek it))"
proof -
  have items: "items = map line_item_of ms"
    and tot: "tot = foldl dec_add (Decimal 0 1) (map znesek_of ms)"
    using assms calculate_invoice_amount_eq[OF assms(1)] by simp_all
  have ne: "ms \<noteq> []" using assms by (simp add: sort_key_Nil_iff)
  have z: "dec_val (znesek_of m) =
        spec_round 2 (dec_val (m_poraba_kwh m) * dec_val (m_dinamicna_cena_eur_kwh m))" for m
    by (simp add: znesek_of_def dec_val_quantize dec_val_mul)
  have sum: "dec_val tot = (\<Sum>it\<leftarrow>items. dec_val (li_znesek it))"
  proof -
    have "dec_val (Decimal 0 1) = 0" by (simp add: dec_val_def)
    then show ?thesis
      by (simp add: tot items dec_val_foldl_add line_item_of_def comp_def)
  qed
  have "places tot = 2" unfolding tot
    using ne by (intro places_foldl_add) (auto simp: znesek_of_def places_quantize)
  then have "quantize tot (Decimal 1 2) = tot" by (intro quantize_same_places) simp
  then have "dec_val tot = spec_round 2 (dec_val tot)"
    using dec_val_quantize[of tot "Decimal 1 2"] by simp
  with sum have rsum: "dec_val tot = spec_round 2 (\<Sum>it\<leftarrow>items. dec_val (li_znesek it))"
    by simp
  show ?thesis using sum rsum z by (simp add: items line_item_of_def comp_def)
qed

lemma example_invoice_amount:
  "calculate_invoice_amount (db_of [reading 1 100, reading 2 50] []) 1 0 100 =
     (Decimal 4 2, [line_item_of (reading 2 50), line_item_of (reading 1 100)])"
  by (simp add: calculate_invoice_amount_def query_meritve_def db_of_def reading_def
      line_item_of_def znesek_of_def Let_def round_half_even_def)

lemma example_query: "query_meritve (db_of [reading 1 100, reading 2 50] []) 1 0 100 \<noteq> []"
  by (simp add: query_meritve_def db_of_def reading_def)

theorem invoice_amounts_rounded_per_item_witness:
  "query_meritve (db_of [reading 1 100, reading 2 50] []) 1 0 100 \<noteq> []
   \<and> calculate_invoice_amount (db_of [reading 1 100, reading 2 50] []) 1 0 100 =
       (Decimal 4 2, [line_item_of (reading 2 50), line_item_of (reading 1 100)])
   \<and> li_znesek (line_item_of (reading 2 50)) = Decimal 2 2
   \<and> dec_val (Decimal 4 2) =
       dec_val (li_znesek (line_item_of (reading 2 50)))
       + dec_val (li_znesek (line_item_of (reading 1 100)))
   \<and> dec_val (Decimal 4 2) \<noteq>
       spec_round 2 (dec_val (Decimal 1000 4) * dec_val (Decimal 15000 5)
                     + dec_val (Decimal 1000 4) * dec_val (Decimal 15000 5))"
proof -
  have z: "li_znesek (line_item_of (reading 2 50)) = Decimal 2 2"
    by (simp add: line_item_of_def znesek_of_def reading_def Let_def round_half_even_def)
  have raw: "spec_round 2 (dec_val (Decimal 1000 4) * dec_val (Decimal 15000 5)
                     + dec_val (Decimal 1000 4) * dec_val (Decimal 15000 5)) = 3 / 100"
    by (simp add: spec_round_def spec_round_half_even_def dec_val_def Let_def)
  have ne: "dec_val (Decimal 4 2) \<noteq> (3 / 100 :: rat)" by (simp add: dec_val_def)
  have "dec_val (Decimal 4 2) =
      (\<Sum>it\<leftarrow>[line_item_of (reading 2 50), line_item_of (reading 1 100)].
          dec_val (li_znesek it))"
    using invoice_amounts_rounded_per_item [OF example_query example_invoice_amount refl]
    by blast
  then have sum: "dec_val (Decimal 4 2) =
       dec_val (li_znesek (line_item_of (reading 2 50)))
       + dec_val (li_znesek (line_item_of (reading 1 100)))"
    by simp
  show ?thesis
    unfolding raw using example_query example_invoice_amount z sum ne by (intro conjI)
qed

text \<open>
  Claim C3. When no reading matches the period, the calculator returns the amount
  \<^verbatim>\<open>0.0\<close> with no line items, \<^verbatim>\<open>create_invoice\<close> raises \<^verbatim>\<open>ValueError\<close> for it, the
  endpoint answers with an error, and the database is the one before the call: no
  invoice and no line item is stored.
\<close>

theorem empty_period_is_hard_failure:
  assumes "query_meritve d l od do = []"
  shows "calculate_invoice_amount d l od do = (Decimal 0 1, [])
       \<and> create_invoice y now d l od do =
           (Inl (ValueError ''Ni podatkov za izbrano obdobje''), d)
       \<and> isl (fst (generate_racun y now rendered pdf_exists delivered d l od do send_email))
       \<and> snd (generate_racun y now rendered pdf_exists delivered d l od do send_email) = d"
  using assms
  by (simp add: calculate_invoice_amount_empty create_invoice_def generate_racun_def)

theorem empty_period_is_hard_failure_witness:
  "query_meritve (db_of [reading 1 100] []) 1 200 300 = []
   \<and> create_invoice 2025 0 (db_of [reading 1 100] []) 1 200 300 =
       (Inl (ValueError ''Ni podatkov za izbrano obdobje''), db_of [reading 1 100] [])
   \<and> snd (generate_racun 2025 0 True True True (db_of [reading 1 100] []) 1 200 300 True)
       = db_of [reading 1 100] []"
proof -
  have h: "query_meritve (db_of [reading 1 100] []) 1 200 300 = []"
    by (simp add: query_meritve_def db_of_def reading_def)
  from empty_period_is_hard_failure [OF h] h show ?thesis by blast
qed

subsection \<open>CSV ingestion\<close>

lemma validate_rows_eq:
  "validate_rows k rs =
     concat (map (\<lambda>i. if row_errors (rs ! i) \<noteq> [] then [Vrstica (k + i + 2) (row_errors (rs ! i))]
                        else []) [0..<length rs])"
proof (induction rs arbitrary: k)
  case Nil
  then show ?case by simp
next
  case (Cons r rs)
  have "[0..<length (r # rs)] = 0 # map Suc [0..<length rs]"
    by (simp add: upt_conv_Cons map_Suc_upt del: upt_Suc)
  then show ?case
    by (simp add: Cons.IH[of "Suc k"] comp_def del: upt_Suc cong: if_cong)
qed

lemma validate_rows_0:
  "validate_rows 0 rs =
     concat (map (\<lambda>i. if row_errors (rs ! i) \<noteq> [] then [Vrstica (i + 2) (row_errors (rs ! i))]
                        else []) [0..<length rs])"
  by (simp add: validate_rows_eq cong: if_cong)

lemma validate_rows_Nil_iff: "validate_rows k rs = [] \<longleftrightarrow> (\<forall>r\<in>set rs. row_errors r = [])"
  by (induction rs arbitrary: k) auto

lemma validate_csv_data_errors:
  "\<exists>r\<in>set (rows df). row_errors r \<noteq> [] \<Longrightarrow> validate_csv_data df \<noteq> []"
  by (auto simp: validate_csv_data_def Let_def validate_rows_Nil_iff)

lemma import_csv_invalid:
  assumes "validate_csv_data df \<noteq> []"
  shows "import_csv_to_database now d df l rep =
    (if l \<notin> set (lokacije d)
     then (\<lparr>success = False, message = LokacijaNeObstaja, imported_count = 0,
             csv_errors = [LokacijaNeObstaja]\<rparr>, d)
     else (\<lparr>success = False, message = NapakeVPodatkih, imported_count = 0,
             csv_errors = take 10 (validate_csv_data df)\<rparr>, d))"
  using assms by (simp add: import_csv_to_database_def Let_def)

text \<open>
  Claim C5. A CSV batch with a row that fails validation is refused as a whole: the
  response has \<^verbatim>\<open>success=False\<close> and \<^verbatim>\<open>imported_count=0\<close>, it carries at most 10 errors,
  and the database is unchanged. When the location exists and the columns are there,
  the errors are the first 10 of the row errors, in the order of the rows, the row of
  index \<open>i\<close> (from 0) reported as row \<open>i + 2\<close>.
\<close>

theorem csv_batch_with_error_fails_whole:
  assumes "\<exists>r\<in>set (rows df). row_errors r \<noteq> []"
    and "res = import_csv_to_database now d df l rep"
  shows "snd res = d
       \<and> \<not> success (fst res)
       \<and> imported_count (fst res) = 0
       \<and> length (csv_errors (fst res)) \<le> 10
       \<and> (l \<in> set (lokacije d) \<and> set required_columns \<subseteq> set (columns df) \<longrightarrow>
            csv_errors (fst res) =
              take 10 (concat (map (\<lambda>i. if row_errors (rows df ! i) \<noteq> []
                                         then [Vrstica (i + 2) (row_errors (rows df ! i))]
                                         else [])
                                 [0..<length (rows df)])))"
proof -
  have inv: "validate_csv_data df \<noteq> []"
    using assms(1) by (rule validate_csv_data_errors)
  have ne: "rows df \<noteq> []" using assms(1) by auto
  have v: "set required_columns \<subseteq> set (columns df) \<Longrightarrow>
      validate_csv_data df = validate_rows 0 (rows df)"
    using ne by (auto simp: validate_csv_data_def Let_def filter_empty_conv)
  show ?thesis
    unfolding assms(2) import_csv_invalid[OF inv]
    using v validate_rows_0[of "rows df"] by simp
qed

lemma row_errors_csv_ok: "row_errors (csv_ok t) = []"
  by (simp add: row_errors_def csv_ok_def dec_lt0_def dec_le0_def)

lemma row_errors_csv_negative: "row_errors (csv_negative t) = [PorabaNegativna]"
  by (simp add: row_errors_def csv_negative_def dec_lt0_def dec_le0_def)

theorem csv_batch_with_error_fails_whole_witness:
  "(\<exists>r\<in>set (rows (csv_file [csv_ok 10, csv_negative 20, csv_ok 30])). row_errors r \<noteq> [])
   \<and> import_csv_to_database 40 (db_of [] []) (csv_file [csv_ok 10, csv_negative 20, csv_ok 30])
        1 False =
       (\<lparr>success = False, message = NapakeVPodatkih, imported_count = 0,
         csv_errors = [Vrstica 3 [PorabaNegativna]]\<rparr>, db_of [] [])"
proof -
  let ?df = "csv_file [csv_ok 10, csv_negative 20, csv_ok 30]"
  let ?res = "import_csv_to_database 40 (db_of [] []) ?df 1 False"
  have h: "\<exists>r\<in>set (rows ?df). row_errors r \<noteq> []"
    by (simp add: csv_file_def row_errors_csv_negative)
  have loc: "1 \<in> set (lokacije (db_of [] [])) \<and> set required_columns \<subseteq> set (columns ?df)"
    by (simp add: db_of_def csv_file_def)
  have idx: "[0..<length (rows ?df)] = [0, 1, 2]"
    by (simp add: csv_file_def upt_conv_Cons)
  have msg: "message (fst ?res) = NapakeVPodatkih"
    by (simp add: import_csv_to_database_def validate_csv_data_def csv_file_def db_of_def
        row_errors_csv_ok row_errors_csv_negative Let_def)
  from csv_batch_with_error_fails_whole [OF h refl, of 40 "db_of [] []" 1 False] loc
  have "snd ?res = db_of [] []" and "\<not> success (fst ?res)" and "imported_count (fst ?res) = 0"
    and "csv_errors (fst ?res) = [Vrstica 3 [PorabaNegativna]]"
    unfolding idx by (simp_all add: csv_file_def row_errors_csv_ok row_errors_csv_negative)
  with msg have "?res = (\<lparr>success = False, message = NapakeVPodatkih, imported_count = 0,
         csv_errors = [Vrstica 3 [PorabaNegativna]]\<rparr>, db_of [] [])"
    by (cases ?res) (auto)
  with h show ?thesis by blast
qed

subsection \<open>Cleanup\<close>

text \<open>
  Claim C10. Whatever the arguments and the database, \<^verbatim>\<open>cleanup_old_data\<close> raises
  \<^verbatim>\<open>NameError\<close> for \<^verbatim>\<open>timedelta\<close>, a name its module does not bind, and the database is
  unchanged: it reports no counts and deletes nothing, in dry-run and in live mode.
\<close>

theorem cleanup_raises_name_error:
  "cleanup_old_data now d days_old dry = (Inl (NameError ''timedelta''), d)"
  by (simp add: cleanup_old_data_def admin_globals_def)

theorem cleanup_raises_name_error_witness:
  "cleanup_old_data 1000 (db_of [reading 1 100] []) 365 True
     = (Inl (NameError ''timedelta''), db_of [reading 1 100] [])
   \<and> cleanup_old_data 1000 (db_of [reading 1 100] []) 0 False
     = (Inl (NameError ''timedelta''), db_of [reading 1 100] [])"
  using cleanup_raises_name_error [of 1000 "db_of [reading 1 100] []" 365 True]
    cleanup_raises_name_error [of 1000 "db_of [reading 1 100] []" 0 False]
  by (intro conjI)

subsection \<open>Statistics\<close>

lemma dec_val_dec_sum: "dec_val (dec_sum xs) = (\<Sum>x\<leftarrow>xs. dec_val x)"
  by (simp add: dec_sum_def dec_val_foldl_add) (simp add: dec_val_def)

lemma dec_le_iff: "dec_le a b \<longleftrightarrow> dec_val a \<le> dec_val b"
proof (cases a; cases b)
  fix x p y q assume a: "a = Decimal x p" and b: "b = Decimal y q"
  let ?m = "max p q"
  have 1: "(10::rat) ^ ?m = 10 ^ p * 10 ^ (?m - p)" by (simp flip: power_add)
  have 2: "(10::rat) ^ ?m = 10 ^ q * 10 ^ (?m - q)" by (simp flip: power_add)
  have x: "of_int x / (10::rat) ^ p = of_int (x * 10 ^ (?m - p)) / 10 ^ ?m"
    by (subst 1) simp
  have y: "of_int y / (10::rat) ^ q = of_int (y * 10 ^ (?m - q)) / 10 ^ ?m"
    by (subst 2) simp
  have "dec_val a \<le> dec_val b \<longleftrightarrow>
      (of_int (x * 10 ^ (?m - p)) :: rat) / 10 ^ ?m \<le> of_int (y * 10 ^ (?m - q)) / 10 ^ ?m"
    unfolding a b dec_val_def decimal.sel x y ..
  also have "\<dots> \<longleftrightarrow> (of_int (x * 10 ^ (?m - p)) :: rat) \<le> of_int (y * 10 ^ (?m - q))"
    by (simp add: divide_le_cancel)
  also have "\<dots> \<longleftrightarrow> x * 10 ^ (?m - p) \<le> y * 10 ^ (?m - q)"
    by (rule of_int_le_iff)
  finally show ?thesis by (simp add: a b)
qed

lemma dec_val_dec_min: "dec_val (dec_min c cs) = Min (dec_val ` set (c # cs))"
proof (induction cs arbitrary: c)
  case Nil
  then show ?case by simp
next
  case (Cons x xs)
  have "Min (dec_val ` set (c # x # xs)) =
        Min (insert (min (dec_val c) (dec_val x)) (dec_val ` set xs))"
    by (cases "xs = []") (simp_all add: min.assoc)
  also have "min (dec_val c) (dec_val x) = dec_val (if \<not> dec_le c x then x else c)"
    by (simp add: dec_le_iff min_def)
  finally show ?case by (simp add: Cons.IH)
qed

lemma dec_val_dec_max: "dec_val (dec_max c cs) = Max (dec_val ` set (c # cs))"
proof (induction cs arbitrary: c)
  case Nil
  then show ?case by simp
next
  case (Cons x xs)
  have "Max (dec_val ` set (c # x # xs)) =
        Max (insert (max (dec_val c) (dec_val x)) (dec_val ` set xs))"
    by (cases "xs = []") (simp_all add: max.assoc)
  also have "max (dec_val c) (dec_val x) = dec_val (if \<not> dec_le x c then x else c)"
    by (auto simp add: dec_le_iff max_def)
  finally show ?case by (simp add: Cons.IH)
qed

lemma dec_val_div_quantize:
  assumes "0 < n"
  shows "dec_val (dec_div_quantize s n e) = spec_round (places e) (dec_val s / of_nat n)"
proof (cases s)
  case (Decimal c p)
  let ?k = "places e"
  have n: "(of_nat n :: rat) = of_int (int n)" by simp
  show ?thesis
  proof (cases "p \<le> ?k")
    case True
    then have "(10::rat) ^ ?k = 10 ^ p * 10 ^ (?k - p)" by (simp flip: power_add)
    then have "of_int c / (10::rat) ^ p / of_nat n * 10 ^ ?k
        = of_int (c * 10 ^ (?k - p)) / of_int (int n)"
      by simp
    moreover have "0 < int n" using assms by simp
    ultimately show ?thesis
      using True Decimal spec_round_half_even_div[of "int n" "c * 10 ^ (?k - p)"]
      by (simp add: dec_div_quantize_def dec_val_def spec_round_def Let_def del: of_int_mult)
  next
    case False
    then have "(10::rat) ^ p = 10 ^ ?k * 10 ^ (p - ?k)" by (simp flip: power_add)
    then have "of_int c / (10::rat) ^ p / of_nat n * 10 ^ ?k
        = of_int c / of_int (int n * 10 ^ (p - ?k))"
      by simp
    moreover have "0 < int n * 10 ^ (p - ?k)" using assms by simp
    ultimately show ?thesis
      using False Decimal spec_round_half_even_div[of "int n * 10 ^ (p - ?k)" c]
      by (simp add: dec_div_quantize_def dec_val_def spec_round_def Let_def del: of_int_mult)
  qed
qed

lemma spec_round_0: "spec_round k 0 = 0"
  by (simp add: spec_round_def spec_round_half_even_def)

text \<open>
  Claim C7 fails at the end of the window: a reading whose timestamp is the end of the
  window is counted.
\<close>

theorem statistics_include_window_end:
  "m_casovni_zig (reading 1 100) = 100
   \<and> st_meritev (calculate_statistics (db_of [reading 1 100] []) 1 0 100) = 1
   \<and> length (filter (\<lambda>m. m_lokacija_id m = 1 \<and> 0 \<le> m_casovni_zig m \<and> m_casovni_zig m < 100)
               (meritve (db_of [reading 1 100] []))) = 0
   \<and> skupna_poraba (calculate_statistics (db_of [reading 1 100] []) 1 0 100) = Decimal 1000 4"
  by (simp add: calculate_statistics_def query_meritve_def db_of_def reading_def Let_def
      dec_sum_def)

text \<open>
  Claim C7, amended. The statistics are those of the readings of the location with
  \<open>start \<le> timestamp \<le> end\<close>, both ends included: their number; their total consumption
  rounded to 4 decimals; their total cost rounded to 2 decimals; and, when there is
  one, the average, the least and the greatest price, rounded to 5 decimals. When there
  is none, every field is zero.
\<close>

theorem statistics_over_closed_window:
  assumes "ms = filter (\<lambda>m. m_lokacija_id m = l \<and> s \<le> m_casovni_zig m \<and> m_casovni_zig m \<le> e)
                  (meritve d)"
    and "st = calculate_statistics d l s e"
  shows "st_meritev st = length ms
       \<and> dec_val (skupna_poraba st) = spec_round 4 (\<Sum>m\<leftarrow>ms. dec_val (m_poraba_kwh m))
       \<and> dec_val (skupni_strosek st) =
           spec_round 2 (\<Sum>m\<leftarrow>ms. dec_val (m_poraba_kwh m)
                                   * dec_val (m_dinamicna_cena_eur_kwh m))
       \<and> (ms \<noteq> [] \<longrightarrow>
            dec_val (povprecna_cena st) =
              spec_round 5 ((\<Sum>m\<leftarrow>ms. dec_val (m_dinamicna_cena_eur_kwh m))
                            / of_nat (length ms))
            \<and> dec_val (minimalna_cena st) =
              spec_round 5 (Min ((\<lambda>m. dec_val (m_dinamicna_cena_eur_kwh m)) ` set ms))
            \<and> dec_val (maksimalna_cena st) =
              spec_round 5 (Max ((\<lambda>m. dec_val (m_dinamicna_cena_eur_kwh m)) ` set ms)))
       \<and> (ms = [] \<longrightarrow>
            dec_val (povprecna_cena st) = 0 \<and> dec_val (minimalna_cena st) = 0
            \<and> dec_val (maksimalna_cena st) = 0)"
proof (cases "ms = []")
  case True
  then have "query_meritve d l s e = []" using assms(1) by (simp add: query_meritve_def)
  then have "st = \<lparr>skupna_poraba = Decimal 0 1, skupni_strosek = Decimal 0 1,
            povprecna_cena = Decimal 0 1, minimalna_cena = Decimal 0 1,
            maksimalna_cena = Decimal 0 1, st_meritev = 0\<rparr>"
    using assms(2) by (simp add: calculate_statistics_def)
  moreover have "dec_val (Decimal 0 1) = 0" by (simp add: dec_val_def)
  ultimately show ?thesis using True by (simp add: spec_round_0)
next
  case False
  have q: "query_meritve d l s e = ms" using assms(1) by (simp add: query_meritve_def)
  obtain m ms' where ms: "ms = m # ms'" using False by (cases ms) auto
  let ?cene = "map m_dinamicna_cena_eur_kwh ms"
  have st: "st = \<lparr>skupna_poraba = quantize (dec_sum (map m_poraba_kwh ms)) (Decimal 1 4),
      skupni_strosek = quantize (dec_sum (map (\<lambda>m. dec_mul (m_poraba_kwh m)
                                  (m_dinamicna_cena_eur_kwh m)) ms)) (Decimal 1 2),
      povprecna_cena = dec_div_quantize (dec_sum ?cene) (length ms) (Decimal 1 5),
      minimalna_cena = quantize (dec_min (m_dinamicna_cena_eur_kwh m)
                                   (map m_dinamicna_cena_eur_kwh ms')) (Decimal 1 5),
      maksimalna_cena = quantize (dec_max (m_dinamicna_cena_eur_kwh m)
                                   (map m_dinamicna_cena_eur_kwh ms')) (Decimal 1 5),
      st_meritev = length ms\<rparr>"
    using assms(2) False unfolding calculate_statistics_def q Let_def
    by (simp add: ms)
  have c1: "st_meritev st = length ms" by (simp add: st)
  have c2: "dec_val (skupna_poraba st) = spec_round 4 (\<Sum>m\<leftarrow>ms. dec_val (m_poraba_kwh m))"
    by (simp add: st dec_val_quantize dec_val_dec_sum comp_def)
  have c3: "dec_val (skupni_strosek st) =
           spec_round 2 (\<Sum>m\<leftarrow>ms. dec_val (m_poraba_kwh m)
                                   * dec_val (m_dinamicna_cena_eur_kwh m))"
    by (simp add: st dec_val_quantize dec_val_dec_sum dec_val_mul comp_def)
  have c4: "dec_val (povprecna_cena st) =
              spec_round 5 ((\<Sum>m\<leftarrow>ms. dec_val (m_dinamicna_cena_eur_kwh m))
                            / of_nat (length ms))"
  proof -
    have "0 < length ms" using False by simp
    from dec_val_div_quantize[OF this, of "dec_sum ?cene" "Decimal 1 5"]
    show ?thesis by (simp add: st dec_val_dec_sum comp_def)
  qed
  have img: "dec_val ` set (m_dinamicna_cena_eur_kwh m # map m_dinamicna_cena_eur_kwh ms')
      = (\<lambda>m. dec_val (m_dinamicna_cena_eur_kwh m)) ` set ms"
    by (simp add: ms image_image)
  have c5: "dec_val (minimalna_cena st) =
              spec_round 5 (Min ((\<lambda>m. dec_val (m_dinamicna_cena_eur_kwh m)) ` set ms))"
    unfolding img[symmetric] by (simp add: st dec_val_quantize dec_val_dec_min)
  have c6: "dec_val (maksimalna_cena st) =
              spec_round 5 (Max ((\<lambda>m. dec_val (m_dinamicna_cena_eur_kwh m)) ` set ms))"
    unfolding img[symmetric] by (simp add: st dec_val_quantize dec_val_dec_max)
  from False c1 c2 c3 c4 c5 c6 show ?thesis by (intro conjI impI) simp_all
qed

theorem statistics_over_closed_window_witness:
  "[reading 1 100] = filter (\<lambda>m. m_lokacija_id m = 1 \<and> 0 \<le> m_casovni_zig m
                                 \<and> m_casovni_zig m \<le> 100)
                        (meritve (db_of [reading 1 100, reading 2 101] []))
   \<and> st_meritev (calculate_statistics (db_of [reading 1 100, reading 2 101] []) 1 0 100) = 1
   \<and> dec_val (skupna_poraba
        (calculate_statistics (db_of [reading 1 100, reading 2 101] []) 1 0 100))
       = spec_round 4 (dec_val (Decimal 1000 4))"
proof -
  have h: "[reading 1 100] = filter (\<lambda>m. m_lokacija_id m = 1 \<and> 0 \<le> m_casovni_zig m
                                 \<and> m_casovni_zig m \<le> 100)
                        (meritve (db_of [reading 1 100, reading 2 101] []))"
    by (simp add: db_of_def reading_def)
  have p: "m_poraba_kwh (reading 1 100) = Decimal 1000 4" by (simp add: reading_def)
  from statistics_over_closed_window [OF h refl]
  have "st_meritev (calculate_statistics (db_of [reading 1 100, reading 2 101] []) 1 0 100)
          = length [reading 1 100]"
    and "dec_val (skupna_poraba
        (calculate_statistics (db_of [reading 1 100, reading 2 101] []) 1 0 100))
       = spec_round 4 (\<Sum>m\<leftarrow>[reading 1 100]. dec_val (m_poraba_kwh m))"
    by blast+
  then have "st_meritev (calculate_statistics (db_of [reading 1 100, reading 2 101] []) 1 0 100)
          = 1"
    and "dec_val (skupna_poraba
        (calculate_statistics (db_of [reading 1 100, reading 2 101] []) 1 0 100))
       = spec_round 4 (dec_val (Decimal 1000 4))"
    by (simp_all add: p)
  with h show ?thesis by (intro conjI)
qed

subsection \<open>Storing readings\<close>

lemma those_map_Some: "\<forall>x\<in>set xs. f x = Some (g x) \<Longrightarrow> those (map f xs) = Some (map g xs)"
  by (induction xs) simp_all

lemma those_map_id: "\<forall>x\<in>set xs. f x = Some x \<Longrightarrow> those (map f xs) = Some xs"
  using those_map_Some[of xs f "\<lambda>x. x"] by simp

lemma those_Some_length: "those xs = Some ys \<Longrightarrow> length ys = length xs"
  by (induction xs arbitrary: ys) (auto split: option.splits)


lemma map_meritev_data_new_meritve: "map meritev_data (new_meritve k now xs) = xs"
  by (induction xs arbitrary: k rule: rev_induct)
     (simp_all add: new_meritve_def meritev_data_def enumerate_append_eq)

lemma insert_meritve_Some:
  "those (map stored_values xs) = Some ys \<Longrightarrow>
   insert_meritve now d xs =
     Some (d\<lparr>meritve := meritve d @ new_meritve (meritev_seq d) now ys,
             meritev_seq := meritev_seq d + int (length ys)\<rparr>)"
  by (simp add: insert_meritve_def)


lemma meritve_insert_meritve:
  "insert_meritve now d xs = Some d' \<Longrightarrow>
   \<exists>ys. those (map stored_values xs) = Some ys
        \<and> map meritev_data (meritve d') = map meritev_data (meritve d) @ ys"
  by (auto simp: insert_meritve_def map_meritev_data_new_meritve split: option.splits)

lemma stored_values_csv_ok:
  "stored_values (csv_reading l (csv_ok t)) = Some (csv_reading l (csv_ok t))"
  by (simp add: stored_values_def store_decimal_def csv_reading_def csv_ok_def)

subsection \<open>CSV files that pass validation\<close>

lemma row_errors_Nil:
  "row_errors r = [] \<longleftrightarrow>
     (\<exists>t poraba cena. c_casovni_zig r = Some t \<and> c_poraba_kwh r = Number poraba
        \<and> c_dinamicna_cena_eur_kwh r = Number cena \<and> \<not> dec_lt0 poraba \<and> \<not> dec_le0 cena)"
  by (cases "c_casovni_zig r"; cases "c_poraba_kwh r"; cases "c_dinamicna_cena_eur_kwh r")
     (simp_all add: row_errors_def)

lemma prepare_rows_valid:
  "\<forall>r\<in>set rs. row_errors r = [] \<Longrightarrow>
   prepare_rows rs =
     map (\<lambda>r. (c_casovni_zig r, cell_decimal (c_poraba_kwh r),
                cell_decimal (c_dinamicna_cena_eur_kwh r))) rs
   \<and> (\<forall>x\<in>set (prepare_rows rs). fst x \<noteq> None)"
proof (induction rs)
  case Nil
  then show ?case by simp
next
  case (Cons r rs)
  from Cons.prems obtain t poraba cena where
    "c_casovni_zig r = Some t" "c_poraba_kwh r = Number poraba"
    "c_dinamicna_cena_eur_kwh r = Number cena"
    by (auto simp: row_errors_Nil)
  with Cons show ?case by simp
qed

lemma import_csv_valid:
  assumes "l \<in> set (lokacije d)" and "set required_columns \<subseteq> set (columns df)"
    and "rows df \<noteq> []" and "\<forall>r\<in>set (rows df). row_errors r = []"
    and "\<not> rep" and "those (map stored_values (map (csv_reading l) (rows df))) = Some ys"
  shows "import_csv_to_database now d df l rep =
    (\<lparr>success = True, message = UspesnoUvozenih (length (rows df)),
      imported_count = length (rows df), csv_errors = []\<rparr>,
     d\<lparr>meritve := meritve d @ new_meritve (meritev_seq d) now ys,
       meritev_seq := meritev_seq d + int (length ys)\<rparr>)"
proof -
  have v: "validate_csv_data df = []"
    using assms(2,3,4)
    by (auto simp: validate_csv_data_def Let_def filter_empty_conv validate_rows_Nil_iff)
  note p = prepare_rows_valid[OF assms(4)]
  have ne: "prepare_rows (rows df) \<noteq> []" using p assms(3) by simp
  have some: "\<not> (\<exists>x\<in>set (prepare_rows (rows df)). fst x = None)" using p by blast
  have m: "map (\<lambda>(t, poraba, cena).
              \<lparr>mc_lokacija_id = l, mc_casovni_zig = the t, mc_poraba_kwh = poraba,
               mc_dinamicna_cena_eur_kwh = cena\<rparr>) (prepare_rows (rows df))
         = map (csv_reading l) (rows df)"
    using p by (simp add: csv_reading_def)
  have len: "length (prepare_rows (rows df)) = length (rows df)" using p by simp
  have i: "insert_meritve now d (map (csv_reading l) (rows df)) =
     Some (d\<lparr>meritve := meritve d @ new_meritve (meritev_seq d) now ys,
             meritev_seq := meritev_seq d + int (length ys)\<rparr>)"
    by (rule insert_meritve_Some[OF assms(6)])
  show ?thesis
    using assms(1,5) ne some
    by (simp add: import_csv_to_database_def v Let_def m len i)
qed

text \<open>
  Claim C1, evaluated where the code departs from it. A reading of location 1 at time
  100 is stored. Creating a reading of the same location and time through
  \<^verbatim>\<open>POST /meritve/\<close> is refused; importing a CSV file with a row of that time into the
  location succeeds, and the table then holds two readings of location 1 at time 100.
\<close>

theorem csv_import_stores_duplicate_reading:
  "create_meritev 5 (db_of [reading 1 100] []) (csv_reading 1 (csv_ok 100)) =
     (Inl (HTTPException 400 ''Meritev za ta cas in lokacijo ze obstaja''),
      db_of [reading 1 100] [])
   \<and> success (fst (import_csv_to_database 5 (db_of [reading 1 100] []) (csv_file [csv_ok 100])
                     1 False))
   \<and> imported_count (fst (import_csv_to_database 5 (db_of [reading 1 100] [])
                             (csv_file [csv_ok 100]) 1 False)) = 1
   \<and> map (\<lambda>m. (m_lokacija_id m, m_casovni_zig m))
       (meritve (snd (import_csv_to_database 5 (db_of [reading 1 100] [])
                        (csv_file [csv_ok 100]) 1 False)))
     = [(1, 100), (1, 100)]"
proof -
  let ?d = "db_of [reading 1 100] []"
  have c: "create_meritev 5 ?d (csv_reading 1 (csv_ok 100)) =
     (Inl (HTTPException 400 ''Meritev za ta cas in lokacijo ze obstaja''), ?d)"
    by (simp add: create_meritev_def db_of_def reading_def csv_reading_def csv_ok_def
        existing_meritev_def meritev_data_def)
  have t: "those (map stored_values (map (csv_reading 1) (rows (csv_file [csv_ok 100]))))
      = Some [csv_reading 1 (csv_ok 100)]"
    by (simp add: csv_file_def stored_values_csv_ok)
  have i: "import_csv_to_database 5 ?d (csv_file [csv_ok 100]) 1 False =
    (\<lparr>success = True, message = UspesnoUvozenih 1, imported_count = 1, csv_errors = []\<rparr>,
     ?d\<lparr>meritve := meritve ?d @ new_meritve (meritev_seq ?d) 5 [csv_reading 1 (csv_ok 100)],
        meritev_seq := meritev_seq ?d + int (length [csv_reading 1 (csv_ok 100)])\<rparr>)"
    using import_csv_valid[of 1 ?d "csv_file [csv_ok 100]" False _ 5, OF _ _ _ _ _ t]
    by (simp add: db_of_def csv_file_def row_errors_csv_ok)
  have k: "map (\<lambda>m. (m_lokacija_id m, m_casovni_zig m))
       (meritve (?d\<lparr>meritve := meritve ?d
            @ new_meritve (meritev_seq ?d) 5 [csv_reading 1 (csv_ok 100)],
          meritev_seq := meritev_seq ?d + int (length [csv_reading 1 (csv_ok 100)])\<rparr>))
     = [(1, 100), (1, 100)]"
    by (simp add: new_meritve_def db_of_def reading_def csv_reading_def csv_ok_def)
  show ?thesis unfolding i using c k by simp
qed

text \<open>
  Claim C8 fails for CSV ingestion: a file of 10001 valid rows is imported whole.
\<close>

theorem csv_import_has_no_batch_cap:
  "length (rows (csv_file (map (\<lambda>i. csv_ok (int i)) [0..<10001]))) > 10000
   \<and> success (fst (import_csv_to_database 0 (db_of [] [])
                     (csv_file (map (\<lambda>i. csv_ok (int i)) [0..<10001])) 1 False))
   \<and> imported_count (fst (import_csv_to_database 0 (db_of [] [])
                     (csv_file (map (\<lambda>i. csv_ok (int i)) [0..<10001])) 1 False)) = 10001
   \<and> length (meritve (snd (import_csv_to_database 0 (db_of [] [])
                     (csv_file (map (\<lambda>i. csv_ok (int i)) [0..<10001])) 1 False))) = 10001"
proof -
  let ?df = "csv_file (map (\<lambda>i. csv_ok (int i)) [0..<10001])"
  let ?ys = "map (csv_reading 1) (rows ?df)"
  have len: "length (rows ?df) = 10001" by (simp add: csv_file_def)
  have t: "those (map stored_values ?ys) = Some ?ys"
    by (rule those_map_id) (auto simp: csv_file_def stored_values_csv_ok)
  have "import_csv_to_database 0 (db_of [] []) ?df 1 False =
    (\<lparr>success = True, message = UspesnoUvozenih (length (rows ?df)),
      imported_count = length (rows ?df), csv_errors = []\<rparr>,
     (db_of [] [])\<lparr>meritve := meritve (db_of [] []) @ new_meritve (meritev_seq (db_of [] [])) 0 ?ys,
       meritev_seq := meritev_seq (db_of [] []) + int (length ?ys)\<rparr>)"
    using len
    by (intro import_csv_valid[OF _ _ _ _ _ t])
       (auto simp: db_of_def csv_file_def row_errors_csv_ok)
  moreover have "length (meritve ((db_of [] [])\<lparr>meritve := meritve (db_of [] [])
        @ new_meritve (meritev_seq (db_of [] [])) 0 ?ys,
       meritev_seq := meritev_seq (db_of [] []) + int (length ?ys)\<rparr>)) = 10001"
    using len by (simp add: new_meritve_def db_of_def)
  ultimately show ?thesis using len by simp
qed

text \<open>
  Claim C8, amended to the path that has the cap. The bulk endpoint refuses a batch of
  more than 10000 records before it looks at any of them, and writes nothing.
\<close>

theorem batch_cap_on_bulk_create_only:
  assumes "10000 < length xs"
  shows "create_bulk_meritve autoflush now d xs =
        (Inl (HTTPException 400 ''Prevec meritev naenkrat. Maksimalno 10.000''), d)"
  using assms by (auto simp: create_bulk_meritve_def)

theorem batch_cap_on_bulk_create_only_witness:
  "10000 < length (replicate 10001 (csv_reading 1 (csv_ok 7)))
   \<and> create_bulk_meritve True 0 (db_of [] []) (replicate 10001 (csv_reading 1 (csv_ok 7))) =
        (Inl (HTTPException 400 ''Prevec meritev naenkrat. Maksimalno 10.000''), db_of [] [])"
proof -
  have h1: "10000 < length (replicate 10001 (csv_reading 1 (csv_ok 7)))" by simp
  from h1 batch_cap_on_bulk_create_only [OF h1] show ?thesis by (intro conjI)
qed

subsection \<open>Bulk creation\<close>












subsection \<open>Invoice numbers\<close>

lemma str_nat_2025: "str_nat 2025 = ''2025''"
  by code_simp

lemma format_06d_1 [simp]: "format_06d 1 = ''000001''" "format_06d (Suc 0) = ''000001''"
  by code_simp+

lemma format_06d_2 [simp]: "format_06d 2 = ''000002''" "format_06d (Suc (Suc 0)) = ''000002''"
  by code_simp+

lemma invoice_sel [simp]:
  "r_id (invoice i n s p) = i"
  "r_stevilka_racuna (invoice i n s p) = ''2025-'' @ format_06d n"
  "r_status (invoice i n s p) = s"
  "r_pdf_pot (invoice i n s p) = p"
  "r_lokacija_id (invoice i n s p) = 1"
  by (simp_all add: invoice_def)

subsection \<open>The states of an invoice\<close>

lemma step_ok_same:
  "inv_racuni d \<Longrightarrow> racuni d' = racuni d \<Longrightarrow> racun_seq d' = racun_seq d \<Longrightarrow> step_ok d d'"
  by (auto simp: step_ok_def inv_racuni_def list_all_iff list_ex_iff)

lemma step_ok_trans:
  assumes "inv_racuni d" and "step_ok d d'" and "step_ok d' d''"
  shows "step_ok d d''"
proof -
  have "racun_seq d \<le> r_id r'' \<or>
        (\<exists>r\<in>set (racuni d). r_id r = r_id r''
            \<and> status_rank (r_status r) \<le> status_rank (r_status r''))"
    if r'': "r'' \<in> set (racuni d'')" for r''
  proof -
    from assms(3) r'' consider "racun_seq d' \<le> r_id r''"
      | r' where "r' \<in> set (racuni d')" "r_id r' = r_id r''"
          "status_rank (r_status r') \<le> status_rank (r_status r'')"
      by (auto simp: step_ok_def list_all_iff list_ex_iff)
    then show ?thesis
    proof cases
      case 1
      with assms(2) show ?thesis by (auto simp: step_ok_def)
    next
      case 2
      from assms(2) 2(1) consider "racun_seq d \<le> r_id r'"
        | r where "r \<in> set (racuni d)" "r_id r = r_id r'"
            "status_rank (r_status r) \<le> status_rank (r_status r')"
        by (auto simp: step_ok_def list_all_iff list_ex_iff)
      then show ?thesis
      proof cases
        case 1
        with 2 show ?thesis by simp
      next
        case (2 r)
        with \<open>r_id r' = r_id r''\<close>
          \<open>status_rank (r_status r') \<le> status_rank (r_status r'')\<close>
        show ?thesis by (intro disjI2 bexI[of _ r]) auto
      qed
    qed
  qed
  with assms(2,3) show ?thesis
    by (auto simp: step_ok_def list_all_iff list_ex_iff)
qed

lemma find_racun_Some:
  "find_racun d i = Some r \<Longrightarrow> r \<in> set (racuni d) \<and> r_id r = i"
  by (auto simp: find_racun_def find_Some_iff)

lemma find_racun_unique:
  assumes "distinct (map r_id (racuni d))" and "find_racun d i = Some r0"
    and "r \<in> set (racuni d)" and "r_id r = i"
  shows "r = r0"
  using assms find_racun_Some[OF assms(2)]
  by (metis distinct_map inj_on_def)

lemma map_r_id_update_racun:
  "(\<And>r. r_id (f r) = r_id r) \<Longrightarrow> map r_id (update_racun i f rs) = map r_id rs"
  by (induction rs) auto

lemma set_update_racun:
  "r' \<in> set (update_racun i f rs) \<Longrightarrow>
     r' \<in> set rs \<or> (\<exists>r\<in>set rs. r_id r = i \<and> r' = f r)"
  by (induction rs) (auto split: if_splits)

lemma step_ok_update:
  assumes inv: "inv_racuni d"
    and d': "racuni d' = update_racun i f (racuni d)" "racun_seq d' = racun_seq d"
    and id: "\<And>r. r_id (f r) = r_id r"
    and f: "\<And>r. r \<in> set (racuni d) \<Longrightarrow> r_id r = i \<Longrightarrow>
              status_rank (r_status r) \<le> status_rank (r_status (f r))
              \<and> (r_status (f r) = ''POSLAN'' \<longrightarrow> \<not> no_pdf (f r))"
  shows "step_ok d d'"
proof -
  have mem: "r' \<in> set (racuni d) \<or> (\<exists>r\<in>set (racuni d). r_id r = i \<and> r' = f r)"
    if "r' \<in> set (racuni d')" for r'
    using that set_update_racun[of r' i f "racuni d"] by (simp add: d')
  have "inv_racuni d'"
    unfolding inv_racuni_def list_all_iff
  proof (intro conjI ballI)
    show "distinct (map r_id (racuni d'))"
      using inv by (simp add: d' map_r_id_update_racun[of f, OF id] inv_racuni_def)
  next
    fix r' assume "r' \<in> set (racuni d')"
    from mem[OF this] inv show "r_id r' < racun_seq d'"
      by (auto simp: inv_racuni_def list_all_iff d' id)
  next
    fix r' assume "r' \<in> set (racuni d')"
    from mem[OF this] inv f show "r_status r' = ''POSLAN'' \<longrightarrow> \<not> no_pdf r'"
      by (auto simp: inv_racuni_def list_all_iff)
  qed
  moreover have "racun_seq d \<le> r_id r'
        \<or> (\<exists>r\<in>set (racuni d). r_id r = r_id r'
              \<and> status_rank (r_status r) \<le> status_rank (r_status r'))"
    if "r' \<in> set (racuni d')" for r'
    using mem[OF that] f id by auto
  ultimately show ?thesis
    by (simp add: step_ok_def list_all_iff list_ex_iff d')
qed

lemma status_rank_le_2: "status_rank s \<le> 2"
  by (simp add: status_rank_def)

lemma status_rank_POSLAN [simp]: "status_rank ''POSLAN'' = 2"
  by (simp add: status_rank_def)

lemma status_rank_GENERIRAN [simp]: "status_rank ''GENERIRAN'' = 1"
  by (simp add: status_rank_def)

lemma status_rank_2_iff: "2 \<le> status_rank s \<longleftrightarrow> s = ''POSLAN''"
  by (simp add: status_rank_def)

lemma status_rank_not_sent: "s \<noteq> ''POSLAN'' \<Longrightarrow> status_rank s \<le> 1"
  by (simp add: status_rank_def)

lemma generate_pdf_ok:
  assumes inv: "inv_racuni d"
    and guard: "\<And>r. find_racun d i = Some r \<Longrightarrow> no_pdf r"
  shows "step_ok d (snd (generate_pdf rendered d i))"
proof (cases "find_racun d i")
  case None
  then show ?thesis using inv by (simp add: generate_pdf_def step_ok_same)
next
  case (Some r0)
  show ?thesis
  proof (cases "r_lokacija_id r0 \<in> set (lokacije d) \<and> rendered")
    case False
    then show ?thesis using inv Some by (auto simp: generate_pdf_def step_ok_same)
  next
    case True
    let ?path = "''generated_invoices/racun_'' @ r_stevilka_racuna r0 @ ''.pdf''"
    let ?f = "\<lambda>r. r\<lparr>r_pdf_pot := Some ?path, r_status := ''GENERIRAN''\<rparr>"
    let ?d' = "d\<lparr>racuni := update_racun i ?f (racuni d)\<rparr>"
    have eq: "snd (generate_pdf rendered d i) = ?d'"
      using Some True by (simp add: generate_pdf_def Let_def)
    have "step_ok d ?d'"
    proof (rule step_ok_update[OF inv, of _ i ?f])
      fix r assume r: "r \<in> set (racuni d)" "r_id r = i"
      with inv Some have "r = r0" by (intro find_racun_unique) (auto simp: inv_racuni_def)
      with guard[OF Some] have "no_pdf r" by simp
      with inv r(1) have "r_status r \<noteq> ''POSLAN''"
        by (auto simp: inv_racuni_def list_all_iff)
      then have "status_rank (r_status r) \<le> 1" by (rule status_rank_not_sent)
      then show "status_rank (r_status r) \<le> status_rank (r_status (?f r))
          \<and> (r_status (?f r) = ''POSLAN'' \<longrightarrow> \<not> no_pdf (?f r))"
        by simp
    qed simp_all
    then show ?thesis by (simp only: eq)
  qed
qed

lemma send_invoice_email_ok:
  assumes inv: "inv_racuni d"
  shows "step_ok d (snd (send_invoice_email pdf_exists delivered d i))"
proof (cases "find_racun d i")
  case None
  then show ?thesis using inv by (simp add: send_invoice_email_def step_ok_same)
next
  case (Some r0)
  show ?thesis
  proof (cases "\<not> no_pdf r0 \<and> pdf_exists \<and> r_lokacija_id r0 \<in> set (lokacije d) \<and> delivered")
    case False
    then show ?thesis using inv Some by (auto simp: send_invoice_email_def step_ok_same)
  next
    case True
    let ?f = "\<lambda>r. r\<lparr>r_status := ''POSLAN''\<rparr>"
    let ?d' = "d\<lparr>racuni := update_racun i ?f (racuni d)\<rparr>"
    have eq: "snd (send_invoice_email pdf_exists delivered d i) = ?d'"
      using Some True by (simp add: send_invoice_email_def)
    have "step_ok d ?d'"
    proof (rule step_ok_update[OF inv, of _ i ?f])
      fix r assume r: "r \<in> set (racuni d)" "r_id r = i"
      with inv Some have "r = r0" by (intro find_racun_unique) (auto simp: inv_racuni_def)
      with True have "\<not> no_pdf (?f r)" by (simp add: no_pdf_def)
      then show "status_rank (r_status r) \<le> status_rank (r_status (?f r))
          \<and> (r_status (?f r) = ''POSLAN'' \<longrightarrow> \<not> no_pdf (?f r))"
        using status_rank_le_2[of "r_status r"] by simp
    qed simp_all
    then show ?thesis by (simp only: eq)
  qed
qed

lemma find_append_new: "\<forall>r\<in>set rs. \<not> P r \<Longrightarrow> P x \<Longrightarrow> find P (rs @ [x]) = Some x"
  by (induction rs) auto

lemma create_invoice_cases:
  "(snd (create_invoice y now d l od do) = d \<and> isl (fst (create_invoice y now d l od do)))
   \<or> (\<exists>znesek items. items \<noteq> [] \<and> create_invoice y now d l od do =
        (Inr \<lparr>r_id = racun_seq d, r_lokacija_id = l,
              r_stevilka_racuna = generate_invoice_number y d, r_datum_od = od,
              r_datum_do = do, r_skupni_znesek = znesek, r_status = ''USTVARJEN'',
              r_datum_izdaje = now, r_pdf_pot = None\<rparr>,
         d\<lparr>racuni := racuni d @
               [\<lparr>r_id = racun_seq d, r_lokacija_id = l,
                 r_stevilka_racuna = generate_invoice_number y d, r_datum_od = od,
                 r_datum_do = do, r_skupni_znesek = znesek, r_status = ''USTVARJEN'',
                 r_datum_izdaje = now, r_pdf_pot = None\<rparr>],
           postavke := postavke d @ new_postavke (postavka_seq d) (racun_seq d) items,
           racun_seq := racun_seq d + 1,
           postavka_seq := postavka_seq d + int (length items)\<rparr>)
        \<and> generate_invoice_number y d \<notin> set (map r_stevilka_racuna (racuni d)))"
proof -
  obtain tot items where c: "calculate_invoice_amount d l od do = (tot, items)"
    by (cases "calculate_invoice_amount d l od do")
  show ?thesis
  proof (cases "items = [] \<or> store_decimal 10 2 tot = None
      \<or> generate_invoice_number y d \<in> set (map r_stevilka_racuna (racuni d))
      \<or> those (map stored_item items) = None")
    case True
    then show ?thesis
      by (auto simp: create_invoice_def c Let_def split: option.splits)
  next
    case False
    then obtain znesek items' where s: "store_decimal 10 2 tot = Some znesek"
      "those (map stored_item items) = Some items'" by auto
    have "items' \<noteq> []" using those_Some_length[OF s(2)] False by auto
    with False s show ?thesis
      by (intro disjI2 exI[of _ znesek] exI[of _ items'])
         (simp add: create_invoice_def c Let_def)
  qed
qed

lemma create_invoice_ok:
  assumes inv: "inv_racuni d"
  shows "step_ok d (snd (create_invoice y now d l od do))"
    and "fst (create_invoice y now d l od do) = Inr racun \<Longrightarrow>
         find_racun (snd (create_invoice y now d l od do)) (r_id racun) = Some racun
         \<and> no_pdf racun"
proof -
  have lt: "\<forall>r\<in>set (racuni d). r_id r < racun_seq d"
    using inv by (auto simp: inv_racuni_def list_all_iff)
  from create_invoice_cases[of y now d l od do]
  consider (fail) "snd (create_invoice y now d l od do) = d"
      "isl (fst (create_invoice y now d l od do))"
    | (ok) new d' where "create_invoice y now d l od do = (Inr new, d')"
        "r_id new = racun_seq d" "r_status new = ''USTVARJEN''" "r_pdf_pot new = None"
        "racuni d' = racuni d @ [new]" "racun_seq d' = racun_seq d + 1"
    by (elim disjE exE conjE) auto
  note cases = this
  show "step_ok d (snd (create_invoice y now d l od do))"
    using cases
  proof cases
    case fail
    then show ?thesis using inv by (simp add: step_ok_same)
  next
    case (ok new d')
    have "step_ok d d'"
      using inv lt ok(2-6)
      by (auto simp: step_ok_def inv_racuni_def list_all_iff list_ex_iff no_pdf_def)
    then show ?thesis using ok(1) by simp
  qed
  show "find_racun (snd (create_invoice y now d l od do)) (r_id racun) = Some racun
         \<and> no_pdf racun"
    if "fst (create_invoice y now d l od do) = Inr racun"
    using cases
  proof cases
    case fail
    with that show ?thesis by simp
  next
    case (ok new d')
    with that have r: "racun = new" by simp
    have "find (\<lambda>r. r_id r = racun_seq d) (racuni d @ [new]) = Some new"
      using lt ok(2) by (intro find_append_new) auto
    then show ?thesis unfolding r using ok by (simp add: find_racun_def no_pdf_def)
  qed
qed

lemma step_ok_inv: "step_ok d d' \<Longrightarrow> inv_racuni d'"
  by (simp add: step_ok_def)

lemma generate_pdf_background_ok:
  assumes inv: "inv_racuni d"
    and guard: "\<And>r. find_racun d i = Some r \<Longrightarrow> no_pdf r"
  shows "step_ok d (generate_pdf_background rendered pdf_exists delivered d i send_email)"
proof -
  obtain res d1 where g: "generate_pdf rendered d i = (res, d1)"
    by (cases "generate_pdf rendered d i")
  have "step_ok d (snd (generate_pdf rendered d i))"
    by (rule generate_pdf_ok[OF inv]) (rule guard)
  then have 1: "step_ok d d1" by (simp add: g)
  have 2: "step_ok d1 (snd (send_invoice_email pdf_exists delivered d1 i))"
    by (rule send_invoice_email_ok[OF step_ok_inv[OF 1]])
  show ?thesis
    using 1 step_ok_trans[OF inv 1 2]
    by (cases res) (simp_all add: generate_pdf_background_def g)
qed

lemma generate_racun_ok:
  assumes inv: "inv_racuni d"
  shows "step_ok d (snd (generate_racun y now rendered pdf_exists delivered d l od do send_email))"
proof (cases "l \<in> set (lokacije d)")
  case False
  then show ?thesis using inv by (simp add: generate_racun_def step_ok_same)
next
  case True
  obtain res d1 where c: "create_invoice y now d l od do = (res, d1)"
    by (cases "create_invoice y now d l od do")
  have 1: "step_ok d d1" using create_invoice_ok(1)[OF inv, of y now l od do] c by simp
  show ?thesis
  proof (cases res)
    case (Inl e)
    then show ?thesis using True 1 by (simp add: generate_racun_def c)
  next
    case (Inr racun)
    then have f: "find_racun d1 (r_id racun) = Some racun \<and> no_pdf racun"
      using create_invoice_ok(2)[OF inv, of y now l od do racun] c by simp
    have "step_ok d1 (generate_pdf_background rendered pdf_exists delivered d1 (r_id racun)
        send_email)"
      using f by (intro generate_pdf_background_ok[OF step_ok_inv[OF 1]]) simp
    from step_ok_trans[OF inv 1 this] show ?thesis
      using True Inr by (simp add: generate_racun_def c)
  qed
qed

lemma get_racun_pdf_ok:
  assumes inv: "inv_racuni d"
  shows "step_ok d (snd (get_racun_pdf rendered d i))"
proof (cases "find_racun d i")
  case None
  then show ?thesis using inv by (simp add: get_racun_pdf_def step_ok_same)
next
  case (Some r0)
  show ?thesis
  proof (cases "no_pdf r0")
    case True
    then have "step_ok d (snd (generate_pdf rendered d i))"
      using Some by (intro generate_pdf_ok[OF inv]) simp
    then show ?thesis using Some True by (simp add: get_racun_pdf_def)
  next
    case False
    then show ?thesis using inv Some by (simp add: get_racun_pdf_def step_ok_same)
  qed
qed

lemma send_racun_email_ok:
  assumes inv: "inv_racuni d"
  shows "step_ok d (snd (send_racun_email pdf_exists delivered d i))"
  using send_invoice_email_ok[OF inv, of pdf_exists delivered i] inv
  by (cases "find_racun d i") (simp_all add: send_racun_email_def step_ok_same)

lemma set_remove_racun: "set (remove_racun i rs) \<subseteq> set rs"
  by (induction rs) auto

lemma distinct_remove_racun:
  "distinct (map r_id rs) \<Longrightarrow> distinct (map r_id (remove_racun i rs))"
  using set_remove_racun[of i] by (induction rs) auto

lemma delete_racun_ok:
  assumes inv: "inv_racuni d"
  shows "step_ok d (snd (delete_racun d i))"
proof (cases "find_racun d i = None \<or> (\<exists>p\<in>set (postavke d). p_racun_id p = i)")
  case True
  then show ?thesis using inv
    by (auto simp: delete_racun_def step_ok_same split: option.splits)
next
  case False
  have sub: "set (remove_racun i (racuni d)) \<subseteq> set (racuni d)" by (rule set_remove_racun)
  have "step_ok d (d\<lparr>racuni := remove_racun i (racuni d)\<rparr>)"
    using inv sub distinct_remove_racun[of "racuni d" i]
    by (auto simp: step_ok_def inv_racuni_def list_all_iff list_ex_iff)
  then show ?thesis using False by (auto simp: delete_racun_def)
qed

lemma racuni_insert_meritve:
  "insert_meritve now d xs = Some d' \<Longrightarrow>
   racuni d' = racuni d \<and> racun_seq d' = racun_seq d \<and> postavke d' = postavke d"
  by (auto simp: insert_meritve_def split: option.splits)

lemma create_meritev_racuni:
  "racuni (snd (create_meritev now d x)) = racuni d
   \<and> racun_seq (snd (create_meritev now d x)) = racun_seq d
   \<and> postavke (snd (create_meritev now d x)) = postavke d"
  by (auto simp: create_meritev_def dest: racuni_insert_meritve split: option.splits)

lemma create_bulk_meritve_racuni:
  "racuni (snd (create_bulk_meritve af now d xs)) = racuni d
   \<and> racun_seq (snd (create_bulk_meritve af now d xs)) = racun_seq d
   \<and> postavke (snd (create_bulk_meritve af now d xs)) = postavke d"
proof -
  obtain pending sc ec errs where
    l: "bulk_loop af (map meritev_data (meritve d)) xs [] 0 0 [] = (pending, sc, ec, errs)"
    by (cases "bulk_loop af (map meritev_data (meritve d)) xs [] 0 0 []") auto
  show ?thesis
    by (auto simp: create_bulk_meritve_def l dest: racuni_insert_meritve
        split: option.splits)
qed

lemma import_csv_racuni:
  "racuni (snd (import_csv_to_database now d df l rep)) = racuni d
   \<and> racun_seq (snd (import_csv_to_database now d df l rep)) = racun_seq d
   \<and> postavke (snd (import_csv_to_database now d df l rep)) = postavke d"
proof -
  have "racuni d2 = racuni d \<and> racun_seq d2 = racun_seq d \<and> postavke d2 = postavke d"
    if "insert_meritve now
          (if rep then d\<lparr>meritve := filter (\<lambda>m. m_lokacija_id m \<noteq> l) (meritve d)\<rparr> else d)
          xs = Some d2" for xs d2
    using racuni_insert_meritve[OF that] by (simp split: if_splits)
  then show ?thesis
    by (simp add: import_csv_to_database_def Let_def split: option.splits)
qed

lemma handle_ok:
  assumes inv: "inv_racuni d"
  shows "step_ok d (handle e rq d)"
proof (cases rq)
  case (CreateMeritev x)
  then show ?thesis using create_meritev_racuni[of "e_now e" d x] inv
    by (simp add: step_ok_same)
next
  case (CreateBulkMeritve xs)
  then show ?thesis using create_bulk_meritve_racuni[of "e_autoflush e" "e_now e" d xs] inv
    by (simp add: step_ok_same)
next
  case (ImportCsv df l rep)
  then show ?thesis using import_csv_racuni[of "e_now e" d df l rep] inv
    by (simp add: step_ok_same)
next
  case (GenerateRacun l od do send_email)
  then show ?thesis using generate_racun_ok[OF inv] by simp
next
  case (GetRacunPdf i)
  then show ?thesis using get_racun_pdf_ok[OF inv] by simp
next
  case (SendRacunEmail i)
  then show ?thesis using send_racun_email_ok[OF inv] by simp
next
  case (DeleteRacun i)
  then show ?thesis using delete_racun_ok[OF inv] by simp
next
  case (CleanupOldData days dry)
  then show ?thesis using inv
    by (simp add: cleanup_old_data_def admin_globals_def step_ok_same)
qed

lemma reachable_inv: "reachable d \<Longrightarrow> inv_racuni d"
proof (induction rule: reachable.induct)
  case (initial d)
  then show ?case by (simp add: inv_racuni_def)
next
  case (request d e rq)
  then show ?case using handle_ok step_ok_inv by blast
qed

text \<open>
  Claim C9 fails for \<^verbatim>\<open>InvoiceService.generate_pdf\<close> taken by itself: it assigns the
  status \<^verbatim>\<open>GENERIRAN\<close> whatever the status was, so on a sent invoice it moves the status
  back.
\<close>

theorem generate_pdf_resets_sent_invoice:
  "map r_status (racuni (db_of [reading 1 100]
       [invoice 1 1 ''POSLAN'' (Some ''generated_invoices/racun_2025-000001.pdf'')]))
     = [''POSLAN'']
   \<and> map r_status (racuni (snd (generate_pdf True (db_of [reading 1 100]
       [invoice 1 1 ''POSLAN'' (Some ''generated_invoices/racun_2025-000001.pdf'')]) 1)))
     = [''GENERIRAN'']
   \<and> status_rank ''GENERIRAN'' < status_rank ''POSLAN''"
  by (simp add: generate_pdf_def find_racun_def db_of_def Let_def)

text \<open>
  Claim C9, amended. Under the requests of the API, served one after the other from a
  database without invoices, the status of an invoice never moves back: an invoice
  stored before a request and still stored after it has a status at least as far in
  the order \<^verbatim>\<open>USTVARJEN\<close>, \<^verbatim>\<open>GENERIRAN\<close>, \<^verbatim>\<open>POSLAN\<close>, and a sent invoice stays sent. (The
  endpoints call \<^verbatim>\<open>generate_pdf\<close> only for an invoice without document path, and a sent
  invoice has one.)
\<close>

theorem status_never_moves_back:
  assumes "reachable d" and "r \<in> set (racuni d)"
    and "r' \<in> set (racuni (handle e rq d))" and "r_id r' = r_id r"
  shows "status_rank (r_status r) \<le> status_rank (r_status r')
       \<and> (r_status r = ''POSLAN'' \<longrightarrow> r_status r' = ''POSLAN'')"
proof -
  have inv: "inv_racuni d" using assms(1) by (rule reachable_inv)
  have lt: "r_id r < racun_seq d"
    using inv assms(2) by (auto simp: inv_racuni_def list_all_iff)
  have "racun_seq d \<le> r_id r'
      \<or> (\<exists>r0\<in>set (racuni d). r_id r0 = r_id r'
            \<and> status_rank (r_status r0) \<le> status_rank (r_status r'))"
    using handle_ok[OF inv, of e rq] assms(3)
    by (auto simp: step_ok_def list_all_iff list_ex_iff)
  with lt assms(4) obtain r0 where r0: "r0 \<in> set (racuni d)" "r_id r0 = r_id r"
    "status_rank (r_status r0) \<le> status_rank (r_status r')"
    by auto
  have "distinct (map r_id (racuni d))" using inv by (simp add: inv_racuni_def)
  with r0(1,2) assms(2) have "r0 = r" by (metis distinct_map inj_on_def)
  with r0(3) have le: "status_rank (r_status r) \<le> status_rank (r_status r')" by simp
  moreover have "r_status r' = ''POSLAN''" if "r_status r = ''POSLAN''"
    using le that by (simp add: status_rank_2_iff[symmetric])
  ultimately show ?thesis by blast
qed

lemmas example_defs =
  env_ok_def generate_racun_def generate_pdf_background_def generate_pdf_def
  create_invoice_def calculate_invoice_amount_def query_meritve_def db_of_def
  reading_def Let_def round_half_even_def generate_invoice_number_def str_nat_2025
  like_prefix_def find_racun_def store_decimal_def stored_item_def

lemma handle_generate_example:
  "racuni (handle env_ok (GenerateRacun 1 0 200 False) (db_of [reading 1 100] []))
     = [invoice 1 1 ''GENERIRAN'' (Some ''generated_invoices/racun_2025-000001.pdf'')]"
  by (simp add: example_defs invoice_def)

lemma handle_send_example:
  "racuni d = [invoice 1 1 ''GENERIRAN'' (Some ''generated_invoices/racun_2025-000001.pdf'')]
   \<Longrightarrow> lokacije d = [1]
   \<Longrightarrow> racuni (handle env_ok (SendRacunEmail 1) d)
     = [invoice 1 1 ''POSLAN'' (Some ''generated_invoices/racun_2025-000001.pdf'')]"
  by (simp add: env_ok_def send_racun_email_def send_invoice_email_def find_racun_def
      no_pdf_def invoice_def)

theorem status_never_moves_back_witness:
  "reachable (handle env_ok (GenerateRacun 1 0 200 False) (db_of [reading 1 100] []))
   \<and> racuni (handle env_ok (GenerateRacun 1 0 200 False) (db_of [reading 1 100] []))
       = [invoice 1 1 ''GENERIRAN'' (Some ''generated_invoices/racun_2025-000001.pdf'')]
   \<and> racuni (handle env_ok (SendRacunEmail 1)
         (handle env_ok (GenerateRacun 1 0 200 False) (db_of [reading 1 100] [])))
       = [invoice 1 1 ''POSLAN'' (Some ''generated_invoices/racun_2025-000001.pdf'')]
   \<and> status_rank ''GENERIRAN'' \<le> status_rank ''POSLAN''"
proof -
  let ?d0 = "db_of [reading 1 100] []"
  let ?d1 = "handle env_ok (GenerateRacun 1 0 200 False) ?d0"
  let ?p = "Some ''generated_invoices/racun_2025-000001.pdf''"
  have "reachable ?d0" by (rule reachable.initial) (simp add: db_of_def)
  then have r1: "reachable ?d1" by (rule reachable.request)
  have l: "lokacije ?d1 = [1]"
    by (simp add: example_defs)
  note g = handle_generate_example
  note s = handle_send_example[OF g l]
  have m1: "invoice 1 1 ''GENERIRAN'' ?p \<in> set (racuni ?d1)" by (simp only: g) simp
  have m2: "invoice 1 1 ''POSLAN'' ?p \<in> set (racuni (handle env_ok (SendRacunEmail 1) ?d1))"
    by (simp only: s) simp
  have "status_rank (r_status (invoice 1 1 ''GENERIRAN'' ?p))
      \<le> status_rank (r_status (invoice 1 1 ''POSLAN'' ?p))"
    using status_never_moves_back [OF r1 m1 m2] by simp
  then have "status_rank ''GENERIRAN'' \<le> status_rank ''POSLAN''" by simp
  with r1 g s show ?thesis by (intro conjI)
qed

end
